theory Spec2Isabelle
  imports Main "HOL-Library.Char_ord" "HOL-Library.List_Lexorder" "HOL-Library.Word"
begin

section \<open>JavaScript values\<close>

text \<open>
  JSON documents as the program receives them from \<open>res.json()\<close>. Numbers are the
  whole numbers the program deals in (ids, quantities, seconds); an object is the list of
  its members. A property read yields \<open>None\<close> where JavaScript yields \<open>undefined\<close>.
\<close>

datatype json =
    JNull
  | JBool bool
  | JNum int
  | JStr string
  | JArr "json list"
  | JObj "(string \<times> json) list"

type_synonym jsval = "json option"

datatype jsnum = Num int | NaN | PosInf | NegInf

datatype piece = Lit string | Sub jsval

type_synonym template = "piece list"

datatype error =
    FetchRejected string
  | ExhaustedAttempts
  | ShopifyError int template string
  | ListCustomersFailed int
  | BodyNotJson
  | TypeError string
  | RangeError string
  | ReferenceError string

text \<open>JavaScript truthiness: \<open>undefined\<close>, \<open>null\<close>, \<open>false\<close>, \<open>0\<close> and \<open>""\<close> are falsy.\<close>

fun truthy :: "jsval \<Rightarrow> bool" where
  "truthy None = False"
| "truthy (Some JNull) = False"
| "truthy (Some (JBool b)) = b"
| "truthy (Some (JNum n)) = (n \<noteq> 0)"
| "truthy (Some (JStr s)) = (s \<noteq> [])"
| "truthy (Some (JArr xs)) = True"
| "truthy (Some (JObj kvs)) = True"

text \<open>\<open>a || b\<close>\<close>

definition or_js :: "jsval \<Rightarrow> jsval \<Rightarrow> jsval" where
  "or_js a b = (if truthy a then a else b)"

text \<open>
  \<open>Number(v)\<close>. On \<open>undefined\<close>, \<open>null\<close>, booleans and numbers the result is fixed by
  the language. On strings, arrays and objects it is the runtime's numeric reading of the
  value's text, which the program does not define: it is the parameter \<open>rt\<close>.
\<close>

fun Number_js :: "(json \<Rightarrow> jsnum) \<Rightarrow> jsval \<Rightarrow> jsnum" where
  "Number_js rt None = NaN"
| "Number_js rt (Some JNull) = Num 0"
| "Number_js rt (Some (JBool b)) = Num (if b then 1 else 0)"
| "Number_js rt (Some (JNum n)) = Num n"
| "Number_js rt (Some v) = rt v"

fun isFinite :: "jsnum \<Rightarrow> bool" where
  "isFinite (Num n) = True"
| "isFinite x = False"

text \<open>\<open>x > 0\<close> on numbers; every comparison with \<open>NaN\<close> is false.\<close>

fun gt0 :: "jsnum \<Rightarrow> bool" where
  "gt0 (Num n) = (0 < n)"
| "gt0 PosInf = True"
| "gt0 x = False"

fun num_of :: "jsnum \<Rightarrow> int" where
  "num_of (Num n) = n"
| "num_of x = 0"

text \<open>
  The numeric reading of a string of decimal digits, on which every runtime agrees; any
  other text reads as \<open>NaN\<close> here. It stands for \<open>rt\<close> in the concrete runs below.
\<close>

definition is_digit :: "char \<Rightarrow> bool" where
  "is_digit c = (CHR ''0'' \<le> c \<and> c \<le> CHR ''9'')"

definition digits_value :: "string \<Rightarrow> int" where
  "digits_value s = foldl (\<lambda>acc c. acc * 10 + (of_char c - 48)) 0 s"

fun decimal :: "json \<Rightarrow> jsnum" where
  "decimal (JStr s) = (if s \<noteq> [] \<and> list_all is_digit s then Num (digits_value s) else NaN)"
| "decimal v = NaN"

section \<open>The network\<close>

text \<open>
  A request as \<open>fetch\<close> receives it. Every URL of the program starts with
  \<open>https://${SHOP}/admin/api/2024-10\<close>; \<open>url\<close> is the template after that prefix, its
  substituted values kept as values. The body is the value handed to \<open>JSON.stringify\<close>.
\<close>

record request =
  url :: template
  meth :: string
  body :: "json option"

text \<open>
  A response: its status, the two headers the program reads (\<open>None\<close> where
  \<open>headers.get\<close> returns \<open>null\<close>), what \<open>res.text()\<close> resolves to, and what
  \<open>res.json()\<close> resolves to (\<open>None\<close> where it rejects).
\<close>

record response =
  status :: int
  retry_after :: "string option"
  link :: "string option"
  body_text :: string
  body_json :: "json option"

datatype fetched = Responded response | Rejected string

datatype event = Attempt request | Sleep int | Yield jsval

text \<open>
  The remote service is a state machine \<open>net\<close> over a state \<open>'w\<close> of its own: one call
  of \<open>fetch\<close> is one step. A rejected \<open>fetch\<close> is a network error or the abort at
  \<open>timeoutMs\<close>. The trace records what the program did, in order.
\<close>

record 'w sys =
  remote :: 'w
  trace :: "event list"

type_synonym 'w net = "'w \<Rightarrow> request \<Rightarrow> fetched \<times> 'w"

definition ok :: "response \<Rightarrow> bool" where
  "ok res = (200 \<le> status res \<and> status res \<le> 299)"

definition retryable :: "response \<Rightarrow> bool" where
  "retryable res = (status res = 429 \<or> (500 \<le> status res \<and> status res \<le> 599))"

definition header_val :: "string option \<Rightarrow> jsval" where
  "header_val h = (case h of None \<Rightarrow> Some JNull | Some s \<Rightarrow> Some (JStr s))"

definition emit :: "event \<Rightarrow> 'w sys \<Rightarrow> 'w sys" where
  "emit e s = s\<lparr>trace := trace s @ [e]\<rparr>"

section \<open>fetchWithRetry\<close>

text \<open>
  The third argument: \<open>retries\<close> is the number of retries after the first attempt, a
  whole number (the callers pass 3, the default is 2); \<open>timeoutMs\<close> bounds one attempt,
  and its expiry shows as a rejected \<open>fetch\<close>; \<open>backoffMs\<close> is the base delay.
\<close>

record policy =
  retries :: int
  timeoutMs :: int
  backoffMs :: int

definition default_policy :: policy where
  "default_policy = \<lparr>retries = 2, timeoutMs = 8000, backoffMs = 800\<rparr>"

definition retry_wait :: "(json \<Rightarrow> jsnum) \<Rightarrow> policy \<Rightarrow> nat \<Rightarrow> response \<Rightarrow> int" where
  "retry_wait rt pol attempt res =
     (let ra = Number_js rt (header_val (retry_after res))
      in if isFinite ra \<and> gt0 ra then num_of ra * 1000
         else backoffMs pol * 2 ^ attempt)"

text \<open>
  The attempt loop, \<open>attempt\<close> counting up from 0. The last branch is the statement
  after the loop.
\<close>

function fetch_loop ::
  "(json \<Rightarrow> jsnum) \<Rightarrow> 'w net \<Rightarrow> request \<Rightarrow> policy \<Rightarrow> nat \<Rightarrow> 'w sys \<Rightarrow> (error + response) \<times> 'w sys"
where
  "fetch_loop rt net rq pol attempt s =
     (if int attempt \<le> retries pol then
        (let (got, w') = net (remote s) rq;
             s1 = emit (Attempt rq) (s\<lparr>remote := w'\<rparr>)
         in case got of
              Responded res \<Rightarrow>
                if \<not> ok res \<and> retryable res \<and> int attempt < retries pol
                then fetch_loop rt net rq pol (Suc attempt)
                       (emit (Sleep (retry_wait rt pol attempt res)) s1)
                else (Inr res, s1)
            | Rejected err \<Rightarrow>
                if int attempt \<ge> retries pol then (Inl (FetchRejected err), s1)
                else fetch_loop rt net rq pol (Suc attempt)
                       (emit (Sleep (backoffMs pol * 2 ^ attempt)) s1))
      else (Inl ExhaustedAttempts, s))"
  by pat_completeness auto
termination
  by (relation "measure (\<lambda>(rt, net, rq, pol, attempt, s). nat (retries pol + 1 - int attempt))") auto

definition fetchWithRetry ::
  "(json \<Rightarrow> jsnum) \<Rightarrow> 'w net \<Rightarrow> request \<Rightarrow> policy \<Rightarrow> 'w sys \<Rightarrow> (error + response) \<times> 'w sys"
where
  "fetchWithRetry rt net rq pol s = fetch_loop rt net rq pol 0 s"


section \<open>shopify: the Admin REST call\<close>

definition admin_policy :: policy where
  "admin_policy = \<lparr>retries = 3, timeoutMs = 10000, backoffMs = 1000\<rparr>"

text \<open>
  \<open>shopify(path, init)\<close>: a response that is not ok is thrown as an Error carrying the
  status, the path and the response text; an ok response is parsed.
\<close>

definition shopify ::
  "(json \<Rightarrow> jsnum) \<Rightarrow> 'w net \<Rightarrow> template \<Rightarrow> string \<Rightarrow> json option \<Rightarrow> 'w sys \<Rightarrow> (error + json) \<times> 'w sys"
where
  "shopify rt net path m b s =
     (case fetchWithRetry rt net \<lparr>url = path, meth = m, body = b\<rparr> admin_policy s of
        (Inl e, s') \<Rightarrow> (Inl e, s')
      | (Inr res, s') \<Rightarrow>
          if \<not> ok res then (Inl (ShopifyError (status res) path (body_text res)), s')
          else (case body_json res of
                  None \<Rightarrow> (Inl BodyNotJson, s')
                | Some j \<Rightarrow> (Inr j, s')))"

section \<open>Reading JSON values\<close>

text \<open>
  \<open>v.k\<close> and \<open>v[k]\<close> for the member names the program reads. Reading a member of
  \<open>null\<close> or \<open>undefined\<close> throws a TypeError; an object yields its member or
  \<open>undefined\<close>; numbers, booleans, strings and arrays have none of these members.
  An object lists each of its keys once.
\<close>

fun get_prop :: "json \<Rightarrow> string \<Rightarrow> error + jsval" where
  "get_prop JNull k = Inl (TypeError k)"
| "get_prop (JObj kvs) k = Inr (map_of kvs k)"
| "get_prop v k = Inr None"

fun get_prop_of :: "jsval \<Rightarrow> string \<Rightarrow> error + jsval" where
  "get_prop_of None k = Inl (TypeError k)"
| "get_prop_of (Some v) k = get_prop v k"

text \<open>\<open>xs.find(p)\<close>, where the callback may throw.\<close>

fun find_js :: "(json \<Rightarrow> error + bool) \<Rightarrow> json list \<Rightarrow> error + jsval" where
  "find_js p [] = Inr None"
| "find_js p (x # xs) =
     (case p x of
        Inl e \<Rightarrow> Inl e
      | Inr found \<Rightarrow> if found then Inr (Some x) else find_js p xs)"

text \<open>\<open>m => m.namespace === "standing" && m.key === "weekly"\<close>\<close>

definition is_standing :: "json \<Rightarrow> error + bool" where
  "is_standing m =
     (case get_prop m ''namespace'' of
        Inl e \<Rightarrow> Inl e
      | Inr ns \<Rightarrow>
          if ns = Some (JStr ''standing'')
          then (case get_prop m ''key'' of
                  Inl e \<Rightarrow> Inl e
                | Inr k \<Rightarrow> Inr (k = Some (JStr ''weekly'')))
          else Inr False)"

text \<open>
  \<open>(json.metafields || []).find(...)\<close>: on a truthy value that is not an array,
  \<open>find\<close> is not a function.
\<close>

definition find_standing :: "jsval \<Rightarrow> error + jsval" where
  "find_standing mfs =
     (case or_js mfs (Some (JArr [])) of
        Some (JArr xs) \<Rightarrow> find_js is_standing xs
      | _ \<Rightarrow> Inl (TypeError ''find''))"

section \<open>getStanding\<close>

text \<open>
  The last line of the function is \<open>return mf ? JSON.parse(m.value) : null\<close>. The name
  \<open>m\<close> is the parameter of the arrow function on the line before and is bound nowhere
  else in the module, so when \<open>mf\<close> is truthy the argument \<open>m.value\<close> raises a
  ReferenceError before \<open>JSON.parse\<close> is called.
\<close>

definition getStanding ::
  "(json \<Rightarrow> jsnum) \<Rightarrow> 'w net \<Rightarrow> jsval \<Rightarrow> 'w sys \<Rightarrow> (error + json) \<times> 'w sys"
where
  "getStanding rt net cust s =
     (case shopify rt net [Lit ''/customers/'', Sub cust, Lit ''/metafields.json''] ''GET'' None s of
        (Inl e, s') \<Rightarrow> (Inl e, s')
      | (Inr json, s') \<Rightarrow>
          (case get_prop json ''metafields'' of
             Inl e \<Rightarrow> (Inl e, s')
           | Inr mfs \<Rightarrow>
               (case find_standing mfs of
                  Inl e \<Rightarrow> (Inl e, s')
                | Inr mf \<Rightarrow>
                    if truthy mf then (Inl (ReferenceError ''m''), s')
                    else (Inr JNull, s'))))"

section \<open>Line items for today\<close>

record item =
  variantId :: jsval
  quantity :: jsnum

text \<open>\<open>p => ({ variantId: p.variantId, quantity: Number(p[dayKey] || 0) })\<close>\<close>

definition make_item :: "(json \<Rightarrow> jsnum) \<Rightarrow> string \<Rightarrow> json \<Rightarrow> error + item" where
  "make_item rt dayKey p =
     (case get_prop p ''variantId'' of
        Inl e \<Rightarrow> Inl e
      | Inr v \<Rightarrow>
          (case get_prop p dayKey of
             Inl e \<Rightarrow> Inl e
           | Inr q \<Rightarrow> Inr \<lparr>variantId = v, quantity = Number_js rt (or_js q (Some (JNum 0)))\<rparr>))"

text \<open>\<open>xs.map(f)\<close>, where the callback may throw.\<close>

fun map_js :: "('a \<Rightarrow> error + 'b) \<Rightarrow> 'a list \<Rightarrow> error + 'b list" where
  "map_js f [] = Inr []"
| "map_js f (x # xs) =
     (case f x of
        Inl e \<Rightarrow> Inl e
      | Inr y \<Rightarrow> (case map_js f xs of Inl e \<Rightarrow> Inl e | Inr ys \<Rightarrow> Inr (y # ys)))"

text \<open>\<open>data.products.map(...).filter(i => i.quantity > 0)\<close>\<close>

definition line_items :: "(json \<Rightarrow> jsnum) \<Rightarrow> string \<Rightarrow> json list \<Rightarrow> error + item list" where
  "line_items rt dayKey products =
     (case map_js (make_item rt dayKey) products of
        Inl e \<Rightarrow> Inl e
      | Inr its \<Rightarrow> Inr (filter (\<lambda>i. gt0 (quantity i)) its))"

section \<open>createDraftOrder\<close>

text \<open>\<open>JSON.stringify\<close> writes \<open>NaN\<close> and the infinities as \<open>null\<close>.\<close>

fun num_json :: "jsnum \<Rightarrow> json" where
  "num_json (Num n) = JNum n"
| "num_json x = JNull"

definition draft_payload :: "(json \<Rightarrow> jsnum) \<Rightarrow> jsval \<Rightarrow> item list \<Rightarrow> string \<Rightarrow> json" where
  "draft_payload rt cust items note =
     JObj [(''draft_order'', JObj
       [(''customer'', JObj [(''id'', num_json (Number_js rt cust))]),
        (''line_items'', JArr (map (\<lambda>i. JObj
            [(''variant_id'', num_json (Number_js rt (variantId i))),
             (''quantity'', num_json (quantity i))]) items)),
        (''note'', JStr note),
        (''use_customer_default_address'', JBool True)])]"

definition createDraftOrder ::
  "(json \<Rightarrow> jsnum) \<Rightarrow> 'w net \<Rightarrow> jsval \<Rightarrow> item list \<Rightarrow> string \<Rightarrow> 'w sys \<Rightarrow> (error + jsval) \<times> 'w sys"
where
  "createDraftOrder rt net cust items note s =
     (case shopify rt net [Lit ''/draft_orders.json''] ''POST''
             (Some (draft_payload rt cust items note)) s of
        (Inl e, s') \<Rightarrow> (Inl e, s')
      | (Inr res, s') \<Rightarrow>
          (case get_prop res ''draft_order'' of
             Inl e \<Rightarrow> (Inl e, s')
           | Inr d \<Rightarrow> (Inr d, s')))"

section \<open>iterateCustomers\<close>

definition rel_next :: string where
  "rel_next = ''>; rel='' @ [CHR 0x22] @ ''next'' @ [CHR 0x22]"

text \<open>
  The regular expression \<open><[^>]+page_info=([^>]+)>; rel="next"\<close>. Between an opening
  \<open><\<close> and the first \<open>>\<close> after it, \<open>capture\<close> splits the text as
  \<open>A page_info= B\<close> with \<open>A\<close> and \<open>B\<close> not empty and \<open>A\<close> as long as possible, and
  yields \<open>B\<close>; \<open>link_next\<close> tries each \<open><\<close> from the left.
\<close>

fun capture :: "string \<Rightarrow> string option" where
  "capture [] = None"
| "capture (c # cs) =
     (case capture cs of
        Some b \<Rightarrow> Some b
      | None \<Rightarrow>
          if take 10 cs = ''page_info='' \<and> drop 10 cs \<noteq> [] then Some (drop 10 cs)
          else None)"

fun link_next :: "string \<Rightarrow> string option" where
  "link_next [] = None"
| "link_next (c # cs) =
     (if c = CHR ''<'' \<and>
         take (length rel_next) (dropWhile (\<lambda>x. x \<noteq> CHR ''>'') cs) = rel_next
      then (case capture (takeWhile (\<lambda>x. x \<noteq> CHR ''>'') cs) of
              Some b \<Rightarrow> Some b
            | None \<Rightarrow> link_next cs)
      else link_next cs)"

text \<open>The URL of a page, after the common prefix.\<close>

definition customers_url :: "string option \<Rightarrow> template" where
  "customers_url page_info =
     (if truthy (header_val page_info)
      then [Lit ''/customers.json?limit=250&page_info='', Sub (header_val page_info), Lit ''&fields=id'']
      else [Lit ''/customers.json?limit=250&fields=id''])"

text \<open>
  \<open>for (const c of body.customers || [])\<close>: an array gives its elements, a string its
  characters, and any other truthy value is not iterable.
\<close>

definition iterable :: "jsval \<Rightarrow> error + json list" where
  "iterable v =
     (case or_js v (Some (JArr [])) of
        Some (JArr xs) \<Rightarrow> Inr xs
      | Some (JStr cs) \<Rightarrow> Inr (map (\<lambda>c. JStr [c]) cs)
      | _ \<Rightarrow> Inl (TypeError ''iterable''))"

text \<open>
  The generator is a state machine that its consumer drives: \<open>AtFetch\<close> is the top of the
  \<open>do\<close> body with the current \<open>page_info\<close>, \<open>InPage\<close> is the \<open>for\<close> loop over the
  page's elements that are still to come (with the page's \<open>link\<close> header), \<open>Closed\<close>
  is a generator that has returned or thrown. One step either fetches a page, or yields one
  id, or reads the link header at the end of a page.
\<close>

datatype gen = AtFetch "string option" | InPage "json list" string | Closed

datatype signal = Yielded jsval | Silent | Done | Threw error

definition gen_step ::
  "(json \<Rightarrow> jsnum) \<Rightarrow> 'w net \<Rightarrow> gen \<Rightarrow> 'w sys \<Rightarrow> signal \<times> gen \<times> 'w sys"
where
  "gen_step rt net g s =
     (case g of
        AtFetch page_info \<Rightarrow>
          (case fetchWithRetry rt net
                  \<lparr>url = customers_url page_info, meth = ''GET'', body = None\<rparr> admin_policy s of
             (Inl e, s') \<Rightarrow> (Threw e, Closed, s')
           | (Inr resp, s') \<Rightarrow>
               if \<not> ok resp then (Threw (ListCustomersFailed (status resp)), Closed, s')
               else
                 (case body_json resp of
                    None \<Rightarrow> (Threw BodyNotJson, Closed, s')
                  | Some b \<Rightarrow>
                      (case get_prop b ''customers'' of
                         Inl e \<Rightarrow> (Threw e, Closed, s')
                       | Inr cs \<Rightarrow>
                           (case iterable cs of
                              Inl e \<Rightarrow> (Threw e, Closed, s')
                            | Inr xs \<Rightarrow>
                                (Silent,
                                 InPage xs (case link resp of None \<Rightarrow> [] | Some l \<Rightarrow> l),
                                 s')))))
      | InPage [] l \<Rightarrow>
          (case link_next l of
             None \<Rightarrow> (Done, Closed, s)
           | Some tok \<Rightarrow> (Silent, AtFetch (Some tok), s))
      | InPage (c # cs) l \<Rightarrow>
          (case get_prop c ''id'' of
             Inl e \<Rightarrow> (Threw e, Closed, s)
           | Inr v \<Rightarrow> (Yielded v, InPage cs l, emit (Yield v) s))
      | Closed \<Rightarrow> (Done, Closed, s))"

text \<open>
  A consumer that takes every id and does nothing else:
  \<open>for await (const id of iterateCustomers()) ids.push(id)\<close>. The generator may go on
  for ever (a service whose every page names a next page), so the loop has fuel and
  \<open>None\<close> is running out of it.
\<close>

fun drain ::
  "nat \<Rightarrow> (json \<Rightarrow> jsnum) \<Rightarrow> 'w net \<Rightarrow> gen \<Rightarrow> jsval list \<Rightarrow> 'w sys \<Rightarrow> ((error + jsval list) \<times> 'w sys) option"
where
  "drain 0 rt net g ids s = None"
| "drain (Suc fuel) rt net g ids s =
     (case gen_step rt net g s of
        (Threw e, g', s') \<Rightarrow> Some (Inl e, s')
      | (Done, g', s') \<Rightarrow> Some (Inr ids, s')
      | (Silent, g', s') \<Rightarrow> drain fuel rt net g' ids s'
      | (Yielded v, g', s') \<Rightarrow> drain fuel rt net g' (ids @ [v]) s')"

section \<open>The daily job\<close>

definition DAY_KEYS :: "string list" where
  "DAY_KEYS = [''sun'', ''mon'', ''tue'', ''wed'', ''thu'', ''fri'', ''sat'']"

datatype weekday = Sunday | Monday | Tuesday | Wednesday | Thursday | Friday | Saturday

text \<open>\<open>new Date().getDay()\<close>\<close>

fun getDay :: "weekday \<Rightarrow> nat" where
  "getDay Sunday = 0"
| "getDay Monday = 1"
| "getDay Tuesday = 2"
| "getDay Wednesday = 3"
| "getDay Thursday = 4"
| "getDay Friday = 5"
| "getDay Saturday = 6"

definition toUpperCase :: "string \<Rightarrow> string" where
  "toUpperCase s =
     map (\<lambda>c. if CHR ''a'' \<le> c \<and> c \<le> CHR ''z'' then char_of (of_char c - (32 :: nat)) else c) s"

record job_result =
  customerId :: jsval
  draftId :: jsval

text \<open>
  The end of the loop body: create the draft order, send its invoice, then push the
  record.
\<close>

definition place_order ::
  "(json \<Rightarrow> jsnum) \<Rightarrow> 'w net \<Rightarrow> string \<Rightarrow> jsval \<Rightarrow> item list \<Rightarrow> job_result list \<Rightarrow> 'w sys
     \<Rightarrow> (error + job_result list) \<times> 'w sys"
where
  "place_order rt net dayKey cust items created s =
     (case createDraftOrder rt net cust items (''Standing order for '' @ toUpperCase dayKey) s of
        (Inl e, s1) \<Rightarrow> (Inl e, s1)
      | (Inr draft, s1) \<Rightarrow>
          (case get_prop_of draft ''id'' of
             Inl e \<Rightarrow> (Inl e, s1)
           | Inr did \<Rightarrow>
               (case shopify rt net [Lit ''/draft_orders/'', Sub did, Lit ''/send_invoice.json'']
                       ''POST'' (Some (JObj [(''draft_order_invoice'', JObj [])])) s1 of
                  (Inl e, s2) \<Rightarrow> (Inl e, s2)
                | (Inr r, s2) \<Rightarrow>
                    (Inr (created @ [\<lparr>customerId = cust, draftId = did\<rparr>]), s2))))"

text \<open>
  From the stored document to the decision: \<open>None\<close> is \<open>continue\<close>, a list is the
  items to order.
\<close>

definition todays_items :: "(json \<Rightarrow> jsnum) \<Rightarrow> string \<Rightarrow> json \<Rightarrow> error + item list option" where
  "todays_items rt dayKey data =
     (if \<not> truthy (Some data) then Inr None
      else
        (case get_prop data ''products'' of
           Inl e \<Rightarrow> Inl e
         | Inr (Some (JArr products)) \<Rightarrow>
             (case line_items rt dayKey products of
                Inl e \<Rightarrow> Inl e
              | Inr items \<Rightarrow> if length items = 0 then Inr None else Inr (Some items))
         | Inr other \<Rightarrow> Inr None))"

text \<open>The loop body for one customer id.\<close>

definition process_customer ::
  "(json \<Rightarrow> jsnum) \<Rightarrow> 'w net \<Rightarrow> string \<Rightarrow> jsval \<Rightarrow> job_result list \<Rightarrow> 'w sys
     \<Rightarrow> (error + job_result list) \<times> 'w sys"
where
  "process_customer rt net dayKey cust created s =
     (case getStanding rt net cust s of
        (Inl e, s1) \<Rightarrow> (Inl e, s1)
      | (Inr data, s1) \<Rightarrow>
          (case todays_items rt dayKey data of
             Inl e \<Rightarrow> (Inl e, s1)
           | Inr None \<Rightarrow> (Inr created, s1)
           | Inr (Some items) \<Rightarrow> place_order rt net dayKey cust items created s1))"

text \<open>
  One turn of \<open>for await (const customerId of iterateCustomers()) { ... }\<close>: the
  generator is resumed and, if it yields an id, the body runs for it. The turn ends the
  loop normally, goes on, or leaves the loop with what was thrown.
\<close>

datatype 'w turn =
    Next gen "job_result list" "'w sys"
  | Finished "job_result list" "'w sys"
  | Aborted error "'w sys"

definition loop_turn ::
  "(json \<Rightarrow> jsnum) \<Rightarrow> 'w net \<Rightarrow> string \<Rightarrow> gen \<Rightarrow> job_result list \<Rightarrow> 'w sys \<Rightarrow> 'w turn"
where
  "loop_turn rt net dayKey g created s =
     (case gen_step rt net g s of
        (Threw e, g', s') \<Rightarrow> Aborted e s'
      | (Done, g', s') \<Rightarrow> Finished created s'
      | (Silent, g', s') \<Rightarrow> Next g' created s'
      | (Yielded cust, g', s') \<Rightarrow>
          (case process_customer rt net dayKey cust created s' of
             (Inl e, s'') \<Rightarrow> Aborted e s''
           | (Inr created', s'') \<Rightarrow> Next g' created' s''))"

text \<open>The loop, with fuel: \<open>None\<close> is running out of it.\<close>

fun run_loop ::
  "nat \<Rightarrow> (json \<Rightarrow> jsnum) \<Rightarrow> 'w net \<Rightarrow> string \<Rightarrow> gen \<Rightarrow> job_result list \<Rightarrow> 'w sys
     \<Rightarrow> ((error + job_result list) \<times> 'w sys) option"
where
  "run_loop 0 rt net dayKey g created s = None"
| "run_loop (Suc fuel) rt net dayKey g created s =
     (case loop_turn rt net dayKey g created s of
        Aborted e s' \<Rightarrow> Some (Inl e, s')
      | Finished created' s' \<Rightarrow> Some (Inr created', s')
      | Next g' created' s' \<Rightarrow> run_loop fuel rt net dayKey g' created' s')"

text \<open>
  The handler's answer: \<open>res.json({ ok: true, created })\<close>, or status 500 with
  \<open>{ error: e.message }\<close> for whatever was thrown inside the \<open>try\<close>.
\<close>

datatype job_response = Ok200 "job_result list" | Error500 error

fun respond :: "error + job_result list \<Rightarrow> job_response" where
  "respond (Inl e) = Error500 e"
| "respond (Inr created) = Ok200 created"

definition run_job ::
  "nat \<Rightarrow> (json \<Rightarrow> jsnum) \<Rightarrow> 'w net \<Rightarrow> weekday \<Rightarrow> 'w sys \<Rightarrow> (job_response \<times> 'w sys) option"
where
  "run_job fuel rt net today s =
     map_option (\<lambda>(r, s'). (respond r, s'))
       (run_loop fuel rt net (DAY_KEYS ! getDay today) (AtFetch None) [] s)"

section \<open>HMAC-SHA-256\<close>

text \<open>
  \<open>crypto.createHmac('sha256', key).update(message).digest()\<close> is the runtime's, not
  the program's: the properties of \<open>verifyProxy\<close> below hold for any keyed digest.
  The function itself, written out from FIPS 180-4 and RFC 2104, is here for the concrete
  runs, so that they are runs of the program as deployed. Strings are byte strings.
\<close>

unbundle bit_operations_syntax

definition rotr :: "nat \<Rightarrow> 32 word \<Rightarrow> 32 word" where
  "rotr n x = drop_bit n x OR push_bit (32 - n) x"

definition Ch :: "32 word \<Rightarrow> 32 word \<Rightarrow> 32 word \<Rightarrow> 32 word" where
  "Ch x y z = (x AND y) XOR (NOT x AND z)"

definition Maj :: "32 word \<Rightarrow> 32 word \<Rightarrow> 32 word \<Rightarrow> 32 word" where
  "Maj x y z = (x AND y) XOR (x AND z) XOR (y AND z)"

definition Sigma0 :: "32 word \<Rightarrow> 32 word" where
  "Sigma0 x = rotr 2 x XOR rotr 13 x XOR rotr 22 x"

definition Sigma1 :: "32 word \<Rightarrow> 32 word" where
  "Sigma1 x = rotr 6 x XOR rotr 11 x XOR rotr 25 x"

definition sigma0 :: "32 word \<Rightarrow> 32 word" where
  "sigma0 x = rotr 7 x XOR rotr 18 x XOR drop_bit 3 x"

definition sigma1 :: "32 word \<Rightarrow> 32 word" where
  "sigma1 x = rotr 17 x XOR rotr 19 x XOR drop_bit 10 x"

text \<open>
  The round constants and the initial hash value: the first 32 bits of the fractional
  parts of the cube roots of the first 64 primes, and of the square roots of the first 8.
\<close>

definition K256 :: "32 word list" where
  "K256 =
     [
      1116352408, 1899447441, 3049323471, 3921009573,
      961987163, 1508970993, 2453635748, 2870763221,
      3624381080, 310598401, 607225278, 1426881987,
      1925078388, 2162078206, 2614888103, 3248222580,
      3835390401, 4022224774, 264347078, 604807628,
      770255983, 1249150122, 1555081692, 1996064986,
      2554220882, 2821834349, 2952996808, 3210313671,
      3336571891, 3584528711, 113926993, 338241895,
      666307205, 773529912, 1294757372, 1396182291,
      1695183700, 1986661051, 2177026350, 2456956037,
      2730485921, 2820302411, 3259730800, 3345764771,
      3516065817, 3600352804, 4094571909, 275423344,
      430227734, 506948616, 659060556, 883997877,
      958139571, 1322822218, 1537002063, 1747873779,
      1955562222, 2024104815, 2227730452, 2361852424,
      2428436474, 2756734187, 3204031479, 3329325298]"

definition H256 :: "32 word list" where
  "H256 = [1779033703, 3144134277, 1013904242, 2773480762, 1359893119, 2600822924, 528734635, 1541459225]"

text \<open>The message schedule, the newest word first.\<close>

fun schedule :: "nat \<Rightarrow> 32 word list \<Rightarrow> 32 word list" where
  "schedule 0 ws = ws"
| "schedule (Suc n) ws =
     schedule n ((sigma1 (ws ! 1) + ws ! 6 + sigma0 (ws ! 14) + ws ! 15) # ws)"

fun round256 :: "32 word list \<Rightarrow> 32 word \<times> 32 word \<Rightarrow> 32 word list" where
  "round256 [a, b, c, d, e, f, g, h] (k, w) =
     (let t1 = h + Sigma1 e + Ch e f g + k + w;
          t2 = Sigma0 a + Maj a b c
      in [t1 + t2, a, b, c, d + t1, e, f, g])"
| "round256 st kw = st"

definition compress :: "32 word list \<Rightarrow> 32 word list \<Rightarrow> 32 word list" where
  "compress hs block =
     map2 (+) hs (foldl round256 hs (zip K256 (rev (schedule 48 (rev block)))))"

fun be32 :: "8 word list \<Rightarrow> 32 word list" where
  "be32 (a # b # c # d # bs) =
     (push_bit 24 (ucast a) OR push_bit 16 (ucast b) OR push_bit 8 (ucast c) OR ucast d) # be32 bs"
| "be32 bs = []"

fun blocks :: "32 word list \<Rightarrow> 32 word list list" where
  "blocks [] = []"
| "blocks ws = take 16 ws # blocks (drop 16 ws)"

definition pad :: "8 word list \<Rightarrow> 8 word list" where
  "pad m =
     m @ [0x80] @ replicate ((119 - length m mod 64) mod 64) 0
       @ map (\<lambda>i. ucast (drop_bit (8 * (7 - i)) (of_nat (8 * length m) :: 64 word))) [0..<8]"

definition bytes32 :: "32 word \<Rightarrow> 8 word list" where
  "bytes32 w = [ucast (drop_bit 24 w), ucast (drop_bit 16 w), ucast (drop_bit 8 w), ucast w]"

definition sha256 :: "8 word list \<Rightarrow> 8 word list" where
  "sha256 m = concat (map bytes32 (foldl compress H256 (blocks (be32 (pad m)))))"

text \<open>The key as one block: hashed if it is longer than a block, then filled with zeros.\<close>

definition key_block :: "8 word list \<Rightarrow> 8 word list" where
  "key_block key =
     (let k0 = (if length key > 64 then sha256 key else key)
      in k0 @ replicate (64 - length k0) 0)"

definition hmac_sha256 :: "8 word list \<Rightarrow> 8 word list \<Rightarrow> 8 word list" where
  "hmac_sha256 key m =
     sha256 (map (\<lambda>b. b XOR 0x5c) (key_block key)
               @ sha256 (map (\<lambda>b. b XOR 0x36) (key_block key) @ m))"

definition utf8 :: "string \<Rightarrow> 8 word list" where
  "utf8 s = map of_char s"

definition node_hmac :: "string \<Rightarrow> string \<Rightarrow> 8 word list" where
  "node_hmac key message = hmac_sha256 (utf8 key) (utf8 message)"

section \<open>verifyProxy\<close>

text \<open>
  The query of a proxy request as a list of its keys with their values, each key once and
  each value a string. The keyed digest is a parameter \<open>hmac key message\<close>, standing
  for \<open>crypto.createHmac('sha256', key).update(message).digest()\<close>.
\<close>

type_synonym query = "(string \<times> string) list"

type_synonym mac = "string \<Rightarrow> string \<Rightarrow> 8 word list"

text \<open>\<open>digest('hex')\<close>: two lower-case digits for each byte.\<close>

definition hex_digits :: string where
  "hex_digits = ''0123456789abcdef''"

definition hex_byte :: "8 word \<Rightarrow> string" where
  "hex_byte b = [hex_digits ! (unat b div 16), hex_digits ! (unat b mod 16)]"

definition to_hex :: "8 word list \<Rightarrow> string" where
  "to_hex bs = concat (map hex_byte bs)"

text \<open>
  \<open>Buffer.from(s, 'hex')\<close>: the digits are read in pairs, in either case, and the
  decoding stops at the first pair that is not two hex digits; a last single character is
  dropped.
\<close>

definition unhex :: "char \<Rightarrow> nat option" where
  "unhex c =
     (if CHR ''0'' \<le> c \<and> c \<le> CHR ''9'' then Some (of_char c - 48)
      else if CHR ''a'' \<le> c \<and> c \<le> CHR ''f'' then Some (of_char c - 87)
      else if CHR ''A'' \<le> c \<and> c \<le> CHR ''F'' then Some (of_char c - 55)
      else None)"

fun from_hex :: "string \<Rightarrow> 8 word list" where
  "from_hex (a # b # cs) =
     (case unhex a of
        None \<Rightarrow> []
      | Some x \<Rightarrow>
          (case unhex b of
             None \<Rightarrow> []
           | Some y \<Rightarrow> of_nat (16 * x + y) # from_hex cs))"
| "from_hex cs = []"

text \<open>\<open>crypto.timingSafeEqual\<close> throws on buffers of different lengths.\<close>

definition timingSafeEqual :: "8 word list \<Rightarrow> 8 word list \<Rightarrow> error + bool" where
  "timingSafeEqual a b =
     (if length a \<noteq> length b then Inl (RangeError ''byte length'') else Inr (a = b))"

text \<open>\<open>const { signature, ...params } = req.query\<close>\<close>

definition without_signature :: "query \<Rightarrow> query" where
  "without_signature q = filter (\<lambda>(k, v). k \<noteq> ''signature'') q"

text \<open>\<open>Object.keys(params).sort().map(k => `${k}=${params[k]}`).join('')\<close>\<close>

definition sorted_params :: "query \<Rightarrow> string" where
  "sorted_params params =
     concat (map (\<lambda>k. k @ ''='' @ (case map_of params k of None \<Rightarrow> [] | Some v \<Rightarrow> v))
               (sort (remdups (map fst params))))"

text \<open>
  \<open>verifyProxy(req)\<close>. \<open>createHmac\<close> throws a TypeError on a key that is
  \<open>undefined\<close>, and the call stands before the \<open>try\<close>; what \<open>timingSafeEqual\<close>
  throws inside the \<open>try\<close> is answered with \<open>false\<close>.
\<close>

definition verifyProxy :: "mac \<Rightarrow> string option \<Rightarrow> query \<Rightarrow> error + bool" where
  "verifyProxy hmac secret q =
     (case map_of q ''signature'' of
        None \<Rightarrow> Inr False
      | Some signature \<Rightarrow>
          if signature = [] then Inr False
          else
            (case secret of
               None \<Rightarrow> Inl (TypeError ''key'')
             | Some key \<Rightarrow>
                 (case timingSafeEqual (from_hex signature)
                         (from_hex (to_hex (hmac key (sorted_params (without_signature q))))) of
                    Inl e \<Rightarrow> Inr False
                  | Inr same \<Rightarrow> Inr same)))"

section \<open>GET /proxy/standing-orders\<close>

datatype proxy_response = Data200 json | Status401 | Status400 | Status500 error

text \<open>
  The handler: 401 on a signature that does not verify, 400 without a customer id, the
  stored document or \<open>null\<close> otherwise, and 500 with the message of whatever was thrown
  inside the \<open>try\<close>. Its last statement reads \<open>m.value\<close> as \<open>getStanding\<close> does.
\<close>

definition get_standing_orders ::
  "mac \<Rightarrow> string option \<Rightarrow> (json \<Rightarrow> jsnum) \<Rightarrow> 'w net \<Rightarrow> query \<Rightarrow> 'w sys \<Rightarrow> proxy_response \<times> 'w sys"
where
  "get_standing_orders hmac secret rt net q s =
     (case verifyProxy hmac secret q of
        Inl e \<Rightarrow> (Status500 e, s)
      | Inr verified \<Rightarrow>
          if \<not> verified then (Status401, s)
          else
            (case map_of q ''customer_id'' of
               None \<Rightarrow> (Status400, s)
             | Some cust \<Rightarrow>
                 if cust = [] then (Status400, s)
                 else
                   (case shopify rt net
                           [Lit ''/customers/'', Sub (Some (JStr cust)), Lit ''/metafields.json'']
                           ''GET'' None s of
                      (Inl e, s') \<Rightarrow> (Status500 e, s')
                    | (Inr json, s') \<Rightarrow>
                        (case get_prop json ''metafields'' of
                           Inl e \<Rightarrow> (Status500 e, s')
                         | Inr mfs \<Rightarrow>
                             (case find_standing mfs of
                                Inl e \<Rightarrow> (Status500 e, s')
                              | Inr mf \<Rightarrow>
                                  if truthy mf then (Status500 (ReferenceError ''m''), s')
                                  else (Data200 JNull, s'))))))"

section \<open>Test doubles and trace readings\<close>

text \<open>
  A scripted service: the \<open>w\<close>-th call of \<open>fetch\<close> gets the \<open>w\<close>-th entry of the
  script, and every later call the default.
\<close>

definition scripted :: "fetched list \<Rightarrow> fetched \<Rightarrow> nat net" where
  "scripted rs dflt w rq = ((if w < length rs then rs ! w else dflt), Suc w)"

text \<open>A service that answers by URL alone, counting the calls.\<close>

definition routed :: "(template \<Rightarrow> fetched) \<Rightarrow> nat net" where
  "routed route w rq = (route (url rq), Suc w)"

definition status_response :: "int \<Rightarrow> string option \<Rightarrow> response" where
  "status_response c ra =
     \<lparr>status = c, retry_after = ra, link = None, body_text = [], body_json = None\<rparr>"

definition json_response :: "json \<Rightarrow> string option \<Rightarrow> response" where
  "json_response j l =
     \<lparr>status = 200, retry_after = None, link = l, body_text = [], body_json = Some j\<rparr>"

definition start :: "nat sys" where
  "start = \<lparr>remote = 0, trace = []\<rparr>"

definition probe :: request where
  "probe = \<lparr>url = [Lit ''/shop.json''], meth = ''GET'', body = None\<rparr>"

text \<open>The number of calls of \<open>fetch\<close> in a trace.\<close>

definition attempts :: "event list \<Rightarrow> nat" where
  "attempts tr = length (filter (\<lambda>e. case e of Attempt r \<Rightarrow> True | _ \<Rightarrow> False) tr)"

text \<open>Every call of \<open>fetch\<close> for \<open>rq\<close> is answered with status \<open>c\<close>.\<close>

definition always_status :: "'w net \<Rightarrow> request \<Rightarrow> int \<Rightarrow> bool" where
  "always_status net rq c = (\<forall>w. \<exists>res. fst (net w rq) = Responded res \<and> status res = c)"

text \<open>
  A shop with one customer, id 7, who has one metafield \<open>standing/weekly\<close> holding
  \<open>stored\<close>. Creating a draft order answers 201 with draft 9001; sending its invoice
  answers \<open>invoice\<close>; any other URL answers 404.
\<close>

definition page_response :: "json list \<Rightarrow> string option \<Rightarrow> response" where
  "page_response cs l = json_response (JObj [(''customers'', JArr cs)]) l"

definition metafields_response :: "string \<Rightarrow> response" where
  "metafields_response stored =
     json_response (JObj [(''metafields'', JArr
       [JObj [(''id'', JNum 31), (''namespace'', JStr ''standing''), (''key'', JStr ''weekly''),
              (''value'', JStr stored)]])]) None"

definition draft_response :: response where
  "draft_response =
     \<lparr>status = 201, retry_after = None, link = None, body_text = [],
      body_json = Some (JObj [(''draft_order'', JObj [(''id'', JNum 9001)])])\<rparr>"

definition shop_route :: "string \<Rightarrow> response \<Rightarrow> template \<Rightarrow> fetched" where
  "shop_route stored invoice u =
     (if u = [Lit ''/customers.json?limit=250&fields=id'']
        then Responded (page_response [JObj [(''id'', JNum 7)]] None)
      else if u = [Lit ''/customers/'', Sub (Some (JNum 7)), Lit ''/metafields.json'']
        then Responded (metafields_response stored)
      else if u = [Lit ''/draft_orders.json'']
        then Responded draft_response
      else if u = [Lit ''/draft_orders/'', Sub (Some (JNum 9001)), Lit ''/send_invoice.json'']
        then Responded invoice
      else Responded (status_response 404 None))"

text \<open>
  The document of the batch scenario, as a value and as the text stored in the metafield:
  \<open>{"products":[{"variantId":111,"quantityPerWeekday":{"mon":2,"tue":0}}]}\<close>.
\<close>

definition scenario_doc :: json where
  "scenario_doc =
     JObj [(''products'', JArr
       [JObj [(''variantId'', JNum 111),
              (''quantityPerWeekday'', JObj [(''mon'', JNum 2), (''tue'', JNum 0)])]])]"

definition dq :: string where
  "dq = [CHR 0x22]"

definition scenario_text :: string where
  "scenario_text =
     ''{'' @ dq @ ''products'' @ dq @ '':[{'' @ dq @ ''variantId'' @ dq @ '':111,'' @ dq
       @ ''quantityPerWeekday'' @ dq @ '':{'' @ dq @ ''mon'' @ dq @ '':2,'' @ dq @ ''tue'' @ dq
       @ '':0}}]}''"

text \<open>The same products with the weekday keys on the product entry itself.\<close>

definition flat_doc :: json where
  "flat_doc =
     JObj [(''products'', JArr
       [JObj [(''variantId'', JNum 111), (''mon'', JNum 2), (''tue'', JNum 0)]])]"

text \<open>The requests of a trace.\<close>

definition requests :: "event list \<Rightarrow> request list" where
  "requests tr = concat (map (\<lambda>e. case e of Attempt r \<Rightarrow> [r] | _ \<Rightarrow> []) tr)"

text \<open>The members of an object; a value that is no object has none.\<close>

fun members :: "json \<Rightarrow> (string \<times> json) list" where
  "members (JObj kvs) = kvs"
| "members v = []"

text \<open>A metafield list without a \<open>standing/weekly\<close> entry.\<close>

definition other_metafields :: json where
  "other_metafields = JObj [(''metafields'', JArr
      [JObj [(''id'', JNum 30), (''namespace'', JStr ''loyalty''), (''key'', JStr ''tier''),
             (''value'', JStr ''gold'')]])]"

text \<open>
  The loop after \<open>n\<close> turns that all went on: where it stands then, or \<open>None\<close> if
  one of the turns ended it.
\<close>

fun advance ::
  "nat \<Rightarrow> (json \<Rightarrow> jsnum) \<Rightarrow> 'w net \<Rightarrow> string \<Rightarrow> gen \<Rightarrow> job_result list \<Rightarrow> 'w sys
     \<Rightarrow> (gen \<times> job_result list \<times> 'w sys) option"
where
  "advance 0 rt net dayKey g created s = Some (g, created, s)"
| "advance (Suc n) rt net dayKey g created s =
     (case loop_turn rt net dayKey g created s of
        Next g' created' s' \<Rightarrow> advance n rt net dayKey g' created' s'
      | _ \<Rightarrow> None)"

text \<open>
  A shop in which customer 7 has no \<open>standing/weekly\<close> entry and customer 8 has one.
\<close>

definition two_customers :: "template \<Rightarrow> fetched" where
  "two_customers u =
     (if u = [Lit ''/customers.json?limit=250&fields=id'']
        then Responded (page_response [JObj [(''id'', JNum 7)], JObj [(''id'', JNum 8)]] None)
      else if u = [Lit ''/customers/'', Sub (Some (JNum 7)), Lit ''/metafields.json'']
        then Responded (json_response other_metafields None)
      else if u = [Lit ''/customers/'', Sub (Some (JNum 8)), Lit ''/metafields.json'']
        then Responded (metafields_response scenario_text)
      else Responded (status_response 404 None))"

definition two_units :: "item list" where
  "two_units = [\<lparr>variantId = Some (JNum 111), quantity = Num 2\<rparr>]"

text \<open>
  The loop in the middle of a run: a draft order 9000 was created and invoiced for
  customer 5 and recorded, and customers 7 and 8 of the page are still to come.
\<close>

definition earlier_calls :: "event list" where
  "earlier_calls =
     [Attempt \<lparr>url = [Lit ''/draft_orders.json''], meth = ''POST'',
               body = Some (draft_payload decimal (Some (JNum 5)) two_units ''Standing order for MON'')\<rparr>,
      Attempt \<lparr>url = [Lit ''/draft_orders/'', Sub (Some (JNum 9000)), Lit ''/send_invoice.json''],
               meth = ''POST'', body = Some (JObj [(''draft_order_invoice'', JObj [])])\<rparr>]"

definition mid_run :: "nat sys" where
  "mid_run = \<lparr>remote = 5, trace = earlier_calls\<rparr>"

definition recorded :: "job_result list" where
  "recorded = [\<lparr>customerId = Some (JNum 5), draftId = Some (JNum 9000)\<rparr>]"

definition metafields_of :: "int \<Rightarrow> event" where
  "metafields_of c =
     Attempt \<lparr>url = [Lit ''/customers/'', Sub (Some (JNum c)), Lit ''/metafields.json''],
              meth = ''GET'', body = None\<rparr>"

text \<open>
  Paging. The request for the page at a cursor, the ids of a page's elements, and a
  service that serves a list of pages: the first at the cursor, each next one at the token
  that the page before it names as next, the last one naming none.
\<close>

definition list_request :: "string option \<Rightarrow> request" where
  "list_request page_info = \<lparr>url = customers_url page_info, meth = ''GET'', body = None\<rparr>"

definition page_ids :: "json list \<Rightarrow> jsval list" where
  "page_ids cs = map (\<lambda>c. map_of (members c) ''id'') cs"

definition link_text :: "string option \<Rightarrow> string" where
  "link_text l = (case l of None \<Rightarrow> [] | Some t \<Rightarrow> t)"

fun serves :: "'w net \<Rightarrow> string option \<Rightarrow> (json list \<times> string option) list \<Rightarrow> bool" where
  "serves net cur [] = False"
| "serves net cur ((cs, l) # ps) =
     ((\<forall>w. fst (net w (list_request cur)) = Responded (page_response cs l))
      \<and> (\<forall>c\<in>set cs. c \<noteq> JNull)
      \<and> (case link_next (link_text l) of
            None \<Rightarrow> ps = []
          | Some tok \<Rightarrow> ps \<noteq> [] \<and> serves net (Some tok) ps))"

definition all_ids :: "(json list \<times> string option) list \<Rightarrow> jsval list" where
  "all_ids ps = concat (map (\<lambda>(cs, l). page_ids cs) ps)"

text \<open>What the iterator is to do over these pages: fetch a page, yield its ids, go on.\<close>

fun paging :: "string option \<Rightarrow> (json list \<times> string option) list \<Rightarrow> event list" where
  "paging cur [] = []"
| "paging cur ((cs, l) # ps) =
     Attempt (list_request cur) # map Yield (page_ids cs) @ paging (link_next (link_text l)) ps"

definition turns :: "(json list \<times> string option) list \<Rightarrow> nat" where
  "turns ps = sum_list (map (\<lambda>(cs, l). length cs + 2) ps)"

text \<open>Three pages of customers; the first two name a next page.\<close>

definition next_link :: "string \<Rightarrow> string" where
  "next_link tok =
     ''<https://example.myshopify.com/admin/api/2024-10/customers.json?limit=250&page_info=''
       @ tok @ rel_next"

definition three_pages :: "(json list \<times> string option) list" where
  "three_pages =
     [([JObj [(''id'', JNum 1)], JObj [(''id'', JNum 2)]], Some (next_link ''p2'')),
      ([JObj [(''id'', JNum 3)]], Some (next_link ''p3'')),
      ([JObj [(''id'', JNum 4)], JObj [(''id'', JNum 5)]], None)]"

definition three_pages_route :: "template \<Rightarrow> fetched" where
  "three_pages_route u =
     (if u = customers_url None
        then Responded (page_response [JObj [(''id'', JNum 1)], JObj [(''id'', JNum 2)]] (Some (next_link ''p2'')))
      else if u = customers_url (Some ''p2'')
        then Responded (page_response [JObj [(''id'', JNum 3)]] (Some (next_link ''p3'')))
      else if u = customers_url (Some ''p3'')
        then Responded (page_response [JObj [(''id'', JNum 4)], JObj [(''id'', JNum 5)]] None)
      else Responded (status_response 404 None))"

text \<open>
  A proxy request for customer 7 of a shop whose secret is \<open>shhh\<close>, without its
  signature, and the digest of its sorted parameters under that secret.
\<close>

definition proxy_params :: query where
  "proxy_params = [(''shop'', ''example.myshopify.com''), (''customer_id'', ''7'')]"

definition proxy_digest :: "8 word list" where
  "proxy_digest =
     [0x41, 0xee, 0xbe, 0x28, 0xf3, 0x9e, 0xfd, 0x62, 0xe8, 0xb7, 0x4d, 0x6c, 0xec, 0x8b, 0x26, 0x9f,
      0xa5, 0xd3, 0x16, 0x69, 0x1b, 0xd6, 0x63, 0xa3, 0x1e, 0xf7, 0xfa, 0xac, 0x6e, 0xad, 0xe8, 0x7a]"

definition proxy_signature :: string where
  "proxy_signature = ''41eebe28f39efd62e8b74d6cec8b269fa5d316691bd663a31ef7faac6eade87a''"

text \<open>
  The blocks and the chaining values of that digest: the two blocks of the inner hash and
  the state after each, the inner digest, and the same for the outer hash.
\<close>

definition inner_block1 :: "32 word list" where
  "inner_block1 =
     [0x455e5e5e, 0x36363636, 0x36363636, 0x36363636,
      0x36363636, 0x36363636, 0x36363636, 0x36363636,
      0x36363636, 0x36363636, 0x36363636, 0x36363636,
      0x36363636, 0x36363636, 0x36363636, 0x36363636]"

definition inner_block2 :: "32 word list" where
  "inner_block2 =
     [0x63757374, 0x6f6d6572, 0x5f69643d, 0x3773686f,
      0x703d6578, 0x616d706c, 0x652e6d79, 0x73686f70,
      0x6966792e, 0x636f6d80, 0x00000000, 0x00000000,
      0x00000000, 0x00000000, 0x00000000, 0x00000338]"

definition inner_state1 :: "32 word list" where
  "inner_state1 =
     [0x37886844, 0x79cb8b8f, 0x44bbccda, 0xadfd047d,
      0xce2174a1, 0x1a0c3f23, 0x88de6882, 0x0329c8b4]"

definition inner_state2 :: "32 word list" where
  "inner_state2 =
     [0xa31e83bb, 0xbcf1f0e5, 0x5b48b37f, 0xd03f0875,
      0x845900e3, 0xda999414, 0x676a702f, 0x09497fc3]"

definition outer_block1 :: "32 word list" where
  "outer_block1 =
     [0x2f343434, 0x5c5c5c5c, 0x5c5c5c5c, 0x5c5c5c5c,
      0x5c5c5c5c, 0x5c5c5c5c, 0x5c5c5c5c, 0x5c5c5c5c,
      0x5c5c5c5c, 0x5c5c5c5c, 0x5c5c5c5c, 0x5c5c5c5c,
      0x5c5c5c5c, 0x5c5c5c5c, 0x5c5c5c5c, 0x5c5c5c5c]"

definition outer_block2 :: "32 word list" where
  "outer_block2 =
     [0xa31e83bb, 0xbcf1f0e5, 0x5b48b37f, 0xd03f0875,
      0x845900e3, 0xda999414, 0x676a702f, 0x09497fc3,
      0x80000000, 0x00000000, 0x00000000, 0x00000000,
      0x00000000, 0x00000000, 0x00000000, 0x00000300]"

definition outer_state1 :: "32 word list" where
  "outer_state1 =
     [0xbacce132, 0xc097da05, 0x2207ae00, 0x43affc26,
      0xf7ca78fc, 0xa2be609a, 0xafa7bfad, 0xca9f186d]"

definition outer_state2 :: "32 word list" where
  "outer_state2 =
     [0x41eebe28, 0xf39efd62, 0xe8b74d6c, 0xec8b269f,
      0xa5d31669, 0x1bd663a3, 0x1ef7faac, 0x6eade87a]"

definition inner_digest :: "8 word list" where
  "inner_digest =
     [0xa3, 0x1e, 0x83, 0xbb, 0xbc, 0xf1, 0xf0, 0xe5, 0x5b, 0x48, 0xb3, 0x7f, 0xd0, 0x3f, 0x08, 0x75,
      0x84, 0x59, 0x00, 0xe3, 0xda, 0x99, 0x94, 0x14, 0x67, 0x6a, 0x70, 0x2f, 0x09, 0x49, 0x7f, 0xc3]"

text \<open>
  From \<open>s\<close> to \<open>s'\<close> the trace has only grown, and every request sent in between
  satisfies \<open>P\<close>.
\<close>

definition extends :: "(request \<Rightarrow> bool) \<Rightarrow> 'w sys \<Rightarrow> 'w sys \<Rightarrow> bool" where
  "extends P s s' = (\<exists>tail. trace s' = trace s @ tail \<and> list_all P (requests tail))"

definition get_or_post :: "request \<Rightarrow> bool" where
  "get_or_post r = (meth r = ''GET'' \<or> meth r = ''POST'')"

text \<open>
  The handler's answer when its loop is entered at a generator state \<open>g\<close> with the
  records \<open>created\<close> already gathered; the handler itself enters it at the first page
  with no record.
\<close>

definition run_from ::
  "nat \<Rightarrow> (json \<Rightarrow> jsnum) \<Rightarrow> 'w net \<Rightarrow> string \<Rightarrow> gen \<Rightarrow> job_result list \<Rightarrow> 'w sys
     \<Rightarrow> (job_response \<times> 'w sys) option"
where
  "run_from fuel rt net dayKey g created s =
     map_option (\<lambda>(r, s'). (respond r, s')) (run_loop fuel rt net dayKey g created s)"

text \<open>The path of a customer's metafields, and the events of a page call answered 503.\<close>

definition metafields_path :: "jsval \<Rightarrow> template" where
  "metafields_path cust = [Lit ''/customers/'', Sub cust, Lit ''/metafields.json'']"

definition page_call_503 :: "event list" where
  "page_call_503 =
     [Attempt (list_request None), Sleep 1000, Attempt (list_request None), Sleep 2000,
      Attempt (list_request None), Sleep 4000, Attempt (list_request None)]"

section \<open>Properties of fetchWithRetry\<close>

declare fetch_loop.simps [simp del]

lemma attempts_emit_Attempt: "attempts (trace (emit (Attempt r) s)) = Suc (attempts (trace s))"
  by (simp add: attempts_def emit_def)

lemma attempts_emit_Sleep: "attempts (trace (emit (Sleep n) s)) = attempts (trace s)"
  by (simp add: attempts_def emit_def)

lemma fetch_loop_503:
  assumes a: "always_status net rq 503"
  shows "int k \<le> retries pol \<Longrightarrow>
    \<exists>res s'. fetch_loop rt net rq pol k s = (Inr res, s') \<and> status res = 503
       \<and> attempts (trace s') = attempts (trace s) + nat (retries pol + 1 - int k)
       \<and> last (trace s') = Attempt rq"
proof (induction "nat (retries pol - int k)" arbitrary: k s)
  case 0
  then have k: "int k = retries pol" by simp
  obtain got w' where n: "net (remote s) rq = (got, w')" by (cases "net (remote s) rq")
  from a obtain res where r: "fst (net (remote s) rq) = Responded res" "status res = 503"
    unfolding always_status_def by blast
  with n have g: "got = Responded res" by simp
  show ?case
    by (subst fetch_loop.simps) (simp add: k n g r attempts_emit_Attempt, simp add: emit_def)
next
  case (Suc m)
  then have k: "int k < retries pol" by linarith
  obtain got w' where n: "net (remote s) rq = (got, w')" by (cases "net (remote s) rq")
  from a obtain res where r: "fst (net (remote s) rq) = Responded res" "status res = 503"
    unfolding always_status_def by blast
  with n have g: "got = Responded res" by simp
  have rt: "\<not> ok res" "retryable res" using r by (simp_all add: ok_def retryable_def)
  let ?s2 = "emit (Sleep (retry_wait rt pol k res)) (emit (Attempt rq) (s\<lparr>remote := w'\<rparr>))"
  have step: "fetch_loop rt net rq pol k s = fetch_loop rt net rq pol (Suc k) ?s2"
    using k by (subst fetch_loop.simps) (simp add: n g rt)
  have "m = nat (retries pol - int (Suc k))" using Suc.hyps(2) by linarith
  moreover have "int (Suc k) \<le> retries pol" using k by simp
  ultimately obtain res' s' where IH: "fetch_loop rt net rq pol (Suc k) ?s2 = (Inr res', s')"
      "status res' = 503"
      "attempts (trace s') = attempts (trace ?s2) + nat (retries pol + 1 - int (Suc k))"
      "last (trace s') = Attempt rq"
    using Suc.hyps(1)[of "Suc k" ?s2] by blast
  have "attempts (trace ?s2) = Suc (attempts (trace s))"
    by (simp add: attempts_emit_Sleep attempts_emit_Attempt)
  with IH k have "attempts (trace s') = attempts (trace s) + nat (retries pol + 1 - int k)"
    by (simp add: nat_diff_distrib)
  with IH step show ?case by simp
qed

lemma fetch_loop_never_falls_through:
  "int k \<le> retries pol \<Longrightarrow> fst (fetch_loop rt net rq pol k s) \<noteq> Inl ExhaustedAttempts"
proof (induction "nat (retries pol - int k)" arbitrary: k s)
  case 0
  then have k: "int k = retries pol" by simp
  show ?case
    by (subst fetch_loop.simps) (simp add: k Let_def split: prod.splits fetched.splits)
next
  case (Suc m)
  then have k: "int k < retries pol" by linarith
  have m: "m = nat (retries pol - int (Suc k))" using Suc.hyps(2) by linarith
  have le: "int (Suc k) \<le> retries pol" using k by simp
  note IH = Suc.hyps(1)[OF m le]
  show ?case using k IH
    by (subst fetch_loop.simps) (simp add: Let_def split: prod.splits fetched.splits)
qed

lemma fetch_loop_last:
  "int k = retries pol \<Longrightarrow> net (remote s) rq = (got, w') \<Longrightarrow>
   fetch_loop rt net rq pol k s =
     (case got of Responded res \<Rightarrow> Inr res | Rejected err \<Rightarrow> Inl (FetchRejected err),
      emit (Attempt rq) (s\<lparr>remote := w'\<rparr>))"
  by (subst fetch_loop.simps) (simp add: Let_def split: fetched.splits)

lemma always_status_scripted: "always_status (scripted [] (Responded (status_response c ra))) rq c"
  by (simp add: always_status_def scripted_def status_response_def)

text \<open>
  The admin policy against a service that always answers 503: four attempts, with the
  waits doubling from \<open>backoffMs\<close>, and nothing after the last attempt.
\<close>

lemma always_503_trace: "trace (snd (fetchWithRetry decimal (scripted [] (Responded (status_response 503 None)))
                  probe admin_policy start)) =
   [Attempt probe, Sleep 1000, Attempt probe, Sleep 2000, Attempt probe, Sleep 4000, Attempt probe]"
  by code_simp

text \<open>
  C5. With \<open>maxAttempts = N\<close>, that is \<open>retries = N - 1\<close>, and a service that answers
  every attempt with status 503, the call makes exactly \<open>N\<close> attempts, and what it
  returns is the 503 response of the last attempt: nothing is slept or fetched after it.
\<close>

theorem fetchWithRetry_503_makes_N_attempts:
  assumes "1 \<le> N" and "retries pol = int N - 1" and "always_status net rq 503"
  shows "\<exists>res s'. fetchWithRetry rt net rq pol s = (Inr res, s') \<and> status res = 503
           \<and> attempts (trace s') = attempts (trace s) + N
           \<and> last (trace s') = Attempt rq"
proof -
  have k: "int 0 \<le> retries pol" using assms(1,2) by simp
  have n: "nat (retries pol + 1 - int 0) = N" using assms(1,2) by simp
  from fetch_loop_503[OF assms(3) k, of rt s]
  show ?thesis unfolding n fetchWithRetry_def .
qed

theorem fetchWithRetry_503_makes_N_attempts_witness:
  "(1::nat) \<le> 4 \<and> retries admin_policy = int 4 - 1
   \<and> always_status (scripted [] (Responded (status_response 503 None))) probe 503
   \<and> (\<exists>res s'. fetchWithRetry decimal (scripted [] (Responded (status_response 503 None)))
                  probe admin_policy start = (Inr res, s')
         \<and> status res = 503 \<and> attempts (trace s') = 4 \<and> last (trace s') = Attempt probe)"
proof -
  have h1: "(1::nat) \<le> 4" by simp
  have h2: "retries admin_policy = int 4 - 1" by (simp add: admin_policy_def)
  have h3: "always_status (scripted [] (Responded (status_response 503 None))) probe 503"
    by (rule always_status_scripted)
  have z: "attempts (trace start) + 4 = 4" by (simp add: start_def attempts_def)
  from fetchWithRetry_503_makes_N_attempts[OF h1 h2 h3, of decimal start]
  have "\<exists>res s'. fetchWithRetry decimal (scripted [] (Responded (status_response 503 None)))
                  probe admin_policy start = (Inr res, s')
         \<and> status res = 503 \<and> attempts (trace s') = 4 \<and> last (trace s') = Attempt probe"
    unfolding z .
  with h1 h2 h3 show ?thesis by (intro conjI)
qed

text \<open>
  C9. For a number of retries that is at least 0, the call never reaches the
  \<open>throw\<close> that follows the loop: each iteration returns, throws what \<open>fetch\<close> threw,
  or goes on to the next attempt, and the iteration with \<open>attempt = retries\<close> returns
  or throws.
\<close>

theorem fetchWithRetry_trailing_throw_unreachable:
  assumes "0 \<le> retries pol"
  shows "fst (fetchWithRetry rt net rq pol (s :: 'w sys)) \<noteq> Inl ExhaustedAttempts
         \<and> (\<forall>(s0 :: 'w sys) got w'. net (remote s0) rq = (got, w') \<longrightarrow>
               fetch_loop rt net rq pol (nat (retries pol)) s0 =
                 (case got of Responded res \<Rightarrow> Inr res | Rejected err \<Rightarrow> Inl (FetchRejected err),
                  emit (Attempt rq) (s0\<lparr>remote := w'\<rparr>)))"
proof (intro conjI allI impI)
  have "int 0 \<le> retries pol" using assms by simp
  from fetch_loop_never_falls_through[OF this]
  show "fst (fetchWithRetry rt net rq pol s) \<noteq> Inl ExhaustedAttempts"
    unfolding fetchWithRetry_def .
next
  fix s0 :: "'w sys" and got w'
  assume n: "net (remote s0) rq = (got, w')"
  have k: "int (nat (retries pol)) = retries pol" using assms by simp
  show "fetch_loop rt net rq pol (nat (retries pol)) s0 =
          (case got of Responded res \<Rightarrow> Inr res | Rejected err \<Rightarrow> Inl (FetchRejected err),
           emit (Attempt rq) (s0\<lparr>remote := w'\<rparr>))"
    by (rule fetch_loop_last[where net=net and s=s0 and rq=rq, OF k n])
qed

theorem fetchWithRetry_trailing_throw_unreachable_witness:
  "0 \<le> retries default_policy
   \<and> fst (fetchWithRetry decimal (scripted [] (Rejected ''ECONNRESET'')) probe default_policy start)
       \<noteq> Inl ExhaustedAttempts"
proof -
  have h: "0 \<le> retries default_policy" by (simp add: default_policy_def)
  from fetchWithRetry_trailing_throw_unreachable[OF h]
  have "fst (fetchWithRetry decimal (scripted [] (Rejected ''ECONNRESET'')) probe default_policy start)
       \<noteq> Inl ExhaustedAttempts"
    by (rule conjunct1)
  with h show ?thesis by (rule conjI)
qed

text \<open>
  With a negative number of retries the loop body never runs and the \<open>throw\<close> after
  the loop is what happens.
\<close>

lemma negative_retries_fall_through: "fst (fetchWithRetry decimal (scripted [] (Rejected ''ECONNRESET'')) probe \<lparr>retries = -1, timeoutMs = 1, backoffMs = 1\<rparr> start)
  = Inl ExhaustedAttempts"
  by code_simp

lemma rejected_three_times: "fetchWithRetry decimal (scripted [] (Rejected ''ECONNRESET'')) probe default_policy start
  = (Inl (FetchRejected ''ECONNRESET''), \<lparr>remote = 3, trace = [Attempt probe, Sleep 800, Attempt probe, Sleep 1600, Attempt probe]\<rparr>)"
  by code_simp

text \<open>
  C6, as the code has it. Before the next attempt the executor sleeps: after a retryable
  response whose \<open>Retry-After\<close> header reads as a finite number \<open>n > 0\<close>, for
  \<open>n * 1000\<close> ms; after a retryable response whose header is absent or reads as zero,
  as a negative number or as no finite number, and after a rejected \<open>fetch\<close>, for
  \<open>backoffMs * 2 ^ attempt\<close> ms, the attempts counted from 0. The policy has no switch
  for the header: it is read on every retryable response.
\<close>

theorem wait_before_retry:
  assumes "int attempt < retries pol"
    and "net (remote s) rq = (got, w')"
    and "\<forall>res. got = Responded res \<longrightarrow> retryable res"
  shows "\<exists>d. fetch_loop rt net rq pol attempt s =
               fetch_loop rt net rq pol (Suc attempt)
                 (emit (Sleep d) (emit (Attempt rq) (s\<lparr>remote := w'\<rparr>)))
          \<and> (\<forall>res h n. got = Responded res \<and> retry_after res = Some h \<and> rt (JStr h) = Num n \<and> 0 < n
                 \<longrightarrow> d = n * 1000)
          \<and> (\<forall>res h. got = Responded res \<and> retry_after res = Some h
                   \<and> \<not> (isFinite (rt (JStr h)) \<and> gt0 (rt (JStr h)))
                 \<longrightarrow> d = backoffMs pol * 2 ^ attempt)
          \<and> (\<forall>res. got = Responded res \<and> retry_after res = None \<longrightarrow> d = backoffMs pol * 2 ^ attempt)
          \<and> (\<forall>err. got = Rejected err \<longrightarrow> d = backoffMs pol * 2 ^ attempt)"
proof (cases got)
  case (Responded res)
  with assms(3) have r: "retryable res" by simp
  then have nok: "\<not> ok res" by (auto simp: ok_def retryable_def)
  have step: "fetch_loop rt net rq pol attempt s =
               fetch_loop rt net rq pol (Suc attempt)
                 (emit (Sleep (retry_wait rt pol attempt res)) (emit (Attempt rq) (s\<lparr>remote := w'\<rparr>)))"
    using assms(1) by (subst fetch_loop.simps) (simp add: assms(2) Responded r nok)
  have a: "\<And>h n. retry_after res = Some h \<Longrightarrow> rt (JStr h) = Num n \<Longrightarrow> 0 < n
             \<Longrightarrow> retry_wait rt pol attempt res = n * 1000"
    by (auto simp: retry_wait_def header_val_def Let_def)
  have b: "\<And>h. retry_after res = Some h \<Longrightarrow> \<not> (isFinite (rt (JStr h)) \<and> gt0 (rt (JStr h)))
             \<Longrightarrow> retry_wait rt pol attempt res = backoffMs pol * 2 ^ attempt"
    by (auto simp: retry_wait_def header_val_def Let_def)
  have c: "retry_after res = None \<Longrightarrow> retry_wait rt pol attempt res = backoffMs pol * 2 ^ attempt"
    by (auto simp: retry_wait_def header_val_def Let_def)
  show ?thesis
    apply (rule exI[of _ "retry_wait rt pol attempt res"])
    using step a b c Responded by auto
next
  case (Rejected err)
  have step: "fetch_loop rt net rq pol attempt s =
               fetch_loop rt net rq pol (Suc attempt)
                 (emit (Sleep (backoffMs pol * 2 ^ attempt)) (emit (Attempt rq) (s\<lparr>remote := w'\<rparr>)))"
    using assms(1) by (subst fetch_loop.simps) (simp add: assms(2) Rejected)
  show ?thesis
    apply (rule exI[of _ "backoffMs pol * 2 ^ attempt"])
    using step Rejected by simp
qed

theorem wait_before_retry_witness:
  "int 0 < retries admin_policy
   \<and> scripted [Responded (status_response 429 (Some ''2''))] (Responded (json_response JNull None))
         (remote start) probe = (Responded (status_response 429 (Some ''2'')), 1)
   \<and> retryable (status_response 429 (Some ''2''))
   \<and> (\<exists>d. fetch_loop decimal
              (scripted [Responded (status_response 429 (Some ''2''))] (Responded (json_response JNull None)))
              probe admin_policy 0 start =
            fetch_loop decimal
              (scripted [Responded (status_response 429 (Some ''2''))] (Responded (json_response JNull None)))
              probe admin_policy (Suc 0)
              (emit (Sleep d) (emit (Attempt probe) (start\<lparr>remote := 1\<rparr>)))
          \<and> d = 2000)"
proof -
  let ?r = "status_response 429 (Some ''2'')"
  let ?net = "scripted [Responded ?r] (Responded (json_response JNull None))"
  have h1: "int 0 < retries admin_policy" by (simp add: admin_policy_def)
  have h2: "?net (remote start) probe = (Responded ?r, 1)"
    by (simp add: scripted_def start_def)
  have h3: "\<forall>res. Responded ?r = Responded res \<longrightarrow> retryable res"
    by (simp add: retryable_def status_response_def)
  have ra: "retry_after ?r = Some ''2''" by (simp add: status_response_def)
  have dec: "decimal (JStr ''2'') = Num 2" by (simp add: is_digit_def digits_value_def)
  from wait_before_retry[where net="?net" and s=start and rq=probe and rt=decimal, OF h1 h2 h3]
  obtain d where d: "fetch_loop decimal ?net probe admin_policy 0 start =
            fetch_loop decimal ?net probe admin_policy (Suc 0)
              (emit (Sleep d) (emit (Attempt probe) (start\<lparr>remote := 1\<rparr>)))"
     and v: "\<forall>res h n. Responded ?r = Responded res \<and> retry_after res = Some h
                \<and> decimal (JStr h) = Num n \<and> 0 < n \<longrightarrow> d = n * 1000"
    by blast
  from v[rule_format, of "?r" "''2''" 2] ra dec have "d = 2 * 1000" by simp
  then have "d = 2000" by simp
  have h4: "retryable ?r" using h3 by simp
  with d h1 h2 \<open>d = 2000\<close> show ?thesis by blast
qed

text \<open>
  A 429 with \<open>Retry-After: 0\<close> carries a value, and the wait is the backoff of
  1000 ms, not zero seconds.
\<close>

theorem retry_after_zero_counterexample:
  "retry_after (status_response 429 (Some ''0'')) = Some ''0''
   \<and> decimal (JStr ''0'') = Num 0
   \<and> trace (snd (fetchWithRetry decimal
        (scripted [Responded (status_response 429 (Some ''0''))] (Responded (json_response JNull None)))
        probe admin_policy start))
     = [Attempt probe, Sleep 1000, Attempt probe]"
  by code_simp

text \<open>A 429 with \<open>Retry-After: 2\<close> is followed by a wait of 2000 ms.\<close>

lemma retry_after_two_trace: "trace (snd (fetchWithRetry decimal
        (scripted [Responded (status_response 429 (Some ''2''))] (Responded (json_response JNull None)))
        probe admin_policy start))
     = [Attempt probe, Sleep 2000, Attempt probe]"
  by code_simp

section \<open>Properties of getStanding\<close>









section \<open>Properties of the daily job\<close>

lemma get_prop_members: "p \<noteq> JNull \<Longrightarrow> get_prop p k = Inr (map_of (members p) k)"
  by (cases p) simp_all

lemma make_item_members:
  "p \<noteq> JNull \<Longrightarrow> make_item rt dayKey p =
     Inr \<lparr>variantId = map_of (members p) ''variantId'',
          quantity = Number_js rt (or_js (map_of (members p) dayKey) (Some (JNum 0)))\<rparr>"
  by (simp add: make_item_def get_prop_members)

lemma map_js_make_item:
  "(\<forall>p\<in>set ps. p \<noteq> JNull) \<Longrightarrow>
   map_js (make_item rt dayKey) ps =
     Inr (map (\<lambda>p. \<lparr>variantId = map_of (members p) ''variantId'',
                     quantity = Number_js rt (or_js (map_of (members p) dayKey) (Some (JNum 0)))\<rparr>) ps)"
  by (induction ps) (simp_all add: make_item_members)

lemma quantity_of_number: "Number_js rt (or_js (Some (JNum n)) (Some (JNum 0))) = Num n"
  by (simp add: or_js_def)

lemma quantity_of_missing: "Number_js rt (or_js None (Some (JNum 0))) = Num 0"
  by (simp add: or_js_def)

text \<open>
  C1, as the code has it. In the batch run the quantity of a product is the value at
  today's weekday key of the product entry itself (\<open>p[dayKey]\<close>), 0 when the key is
  missing or its value is falsy, and only the items with a quantity above 0 are kept, in
  the order of the products; with no item left the customer is skipped. So a document
  \<open>{products:[{variantId:111,mon:2,tue:0}]}\<close> gives the one item (111, 2) on a Monday
  and none on a Tuesday.
\<close>

theorem todays_items_from_own_weekday_member:
  assumes "get_prop data ''products'' = Inr (Some (JArr products))"
    and "\<forall>p\<in>set products. p \<noteq> JNull"
  shows "todays_items rt dayKey data =
     (let items = filter (\<lambda>i. gt0 (quantity i))
                    (map (\<lambda>p. \<lparr>variantId = map_of (members p) ''variantId'',
                               quantity = Number_js rt (or_js (map_of (members p) dayKey) (Some (JNum 0)))\<rparr>)
                       products)
      in Inr (if items = [] then None else Some items))"
proof -
  define its where "its = filter (\<lambda>i. gt0 (quantity i))
                    (map (\<lambda>p. \<lparr>variantId = map_of (members p) ''variantId'',
                               quantity = Number_js rt (or_js (map_of (members p) dayKey) (Some (JNum 0)))\<rparr>)
                       products)"
  from assms(1) obtain kvs where d: "data = JObj kvs" by (cases data) simp_all
  have li: "line_items rt dayKey products = Inr its"
    unfolding its_def line_items_def by (simp only: map_js_make_item[OF assms(2)] sum.case)
  have "todays_items rt dayKey data = Inr (if its = [] then None else Some its)"
    using assms(1) by (simp add: todays_items_def d li)
  then show ?thesis unfolding Let_def its_def .
qed

theorem todays_items_from_own_weekday_member_witness:
  "todays_items decimal (DAY_KEYS ! getDay Monday) flat_doc =
     Inr (Some [\<lparr>variantId = Some (JNum 111), quantity = Num 2\<rparr>])
   \<and> todays_items decimal (DAY_KEYS ! getDay Tuesday) flat_doc = Inr None"
proof -
  let ?ps = "[JObj [(''variantId'', JNum 111), (''mon'', JNum 2), (''tue'', JNum 0)]]"
  have g: "get_prop flat_doc ''products'' = Inr (Some (JArr ?ps))" by (simp add: flat_doc_def)
  have o: "\<forall>p\<in>set ?ps. p \<noteq> JNull" by simp
  have m: "DAY_KEYS ! getDay Monday = ''mon''" by (simp add: DAY_KEYS_def)
  have t: "DAY_KEYS ! getDay Tuesday = ''tue''" by (simp add: DAY_KEYS_def numeral_2_eq_2)
  have a: "todays_items decimal ''mon'' flat_doc =
     Inr (Some [\<lparr>variantId = Some (JNum 111), quantity = Num 2\<rparr>])"
    using todays_items_from_own_weekday_member[OF g o, of decimal "''mon''"]
    by (simp add: or_js_def)
  have b: "todays_items decimal ''tue'' flat_doc = Inr None"
    using todays_items_from_own_weekday_member[OF g o, of decimal "''tue''"]
    by (simp add: or_js_def)
  show ?thesis unfolding m t using a b by (rule conjI)
qed

text \<open>
  The document of the scenario keeps its quantities one level down, in
  \<open>quantityPerWeekday\<close>, where the job does not look: on a Monday it has no item for
  the customer. And the run itself, over a shop whose customer 7 has that document stored,
  answers 500 after the metafields call, without a draft order.
\<close>

theorem batch_scenario_counterexample:
  "todays_items decimal (DAY_KEYS ! getDay Monday) scenario_doc = Inr None
   \<and> run_job 10 decimal (routed (shop_route scenario_text (json_response (JObj []) None))) Monday start
     = Some (Error500 (ReferenceError ''m''),
             \<lparr>remote = 2,
              trace = [Attempt \<lparr>url = [Lit ''/customers.json?limit=250&fields=id''], meth = ''GET'', body = None\<rparr>,
                       Yield (Some (JNum 7)),
                       Attempt \<lparr>url = [Lit ''/customers/'', Sub (Some (JNum 7)), Lit ''/metafields.json''],
                                meth = ''GET'', body = None\<rparr>]\<rparr>)"
  by code_simp


text \<open>
  C10. The record \<open>{customerId, draftId}\<close> is appended only after the draft order was
  created and its invoice was sent, both without error. When the draft order was created
  and sending the invoice fails, the loop body throws that error: the run's answer is the
  500 with it, and no record of the draft order.
\<close>

theorem record_pushed_after_both_calls:
  "(place_order rt net dayKey cust items created s = (Inr created', s') \<longrightarrow>
      (\<exists>draft did s1 r.
          createDraftOrder rt net cust items (''Standing order for '' @ toUpperCase dayKey) s = (Inr draft, s1)
        \<and> get_prop_of draft ''id'' = Inr did
        \<and> shopify rt net [Lit ''/draft_orders/'', Sub did, Lit ''/send_invoice.json''] ''POST''
              (Some (JObj [(''draft_order_invoice'', JObj [])])) s1 = (Inr r, s')
        \<and> created' = created @ [\<lparr>customerId = cust, draftId = did\<rparr>]))
   \<and> (createDraftOrder rt net cust items (''Standing order for '' @ toUpperCase dayKey) s = (Inr draft, s1)
        \<and> get_prop_of draft ''id'' = Inr did
        \<and> shopify rt net [Lit ''/draft_orders/'', Sub did, Lit ''/send_invoice.json''] ''POST''
              (Some (JObj [(''draft_order_invoice'', JObj [])])) s1 = (Inl e, s2)
      \<longrightarrow> place_order rt net dayKey cust items created s = (Inl e, s2)
          \<and> respond (fst (place_order rt net dayKey cust items created s)) = Error500 e)"
proof (intro conjI impI)
  assume "place_order rt net dayKey cust items created s = (Inr created', s')"
  then show "\<exists>draft did s1 r.
          createDraftOrder rt net cust items (''Standing order for '' @ toUpperCase dayKey) s = (Inr draft, s1)
        \<and> get_prop_of draft ''id'' = Inr did
        \<and> shopify rt net [Lit ''/draft_orders/'', Sub did, Lit ''/send_invoice.json''] ''POST''
              (Some (JObj [(''draft_order_invoice'', JObj [])])) s1 = (Inr r, s')
        \<and> created' = created @ [\<lparr>customerId = cust, draftId = did\<rparr>]"
    by (auto simp: place_order_def split: prod.splits sum.splits)
next
  assume a: "createDraftOrder rt net cust items (''Standing order for '' @ toUpperCase dayKey) s = (Inr draft, s1)
        \<and> get_prop_of draft ''id'' = Inr did
        \<and> shopify rt net [Lit ''/draft_orders/'', Sub did, Lit ''/send_invoice.json''] ''POST''
              (Some (JObj [(''draft_order_invoice'', JObj [])])) s1 = (Inl e, s2)"
  then show p: "place_order rt net dayKey cust items created s = (Inl e, s2)"
    by (simp add: place_order_def)
  then show "respond (fst (place_order rt net dayKey cust items created s)) = Error500 e"
    by simp
qed

lemma draft_then_refused:
  "createDraftOrder decimal (routed (shop_route [] (status_response 422 None))) (Some (JNum 7)) two_units
      (''Standing order for '' @ toUpperCase ''mon'') start
     = (Inr (Some (JObj [(''id'', JNum 9001)])),
        \<lparr>remote = 1, trace = [Attempt \<lparr>url = [Lit ''/draft_orders.json''], meth = ''POST'',
            body = Some (draft_payload decimal (Some (JNum 7)) two_units ''Standing order for MON'')\<rparr>]\<rparr>)"
  by code_simp

lemma invoice_refused:
  "shopify decimal (routed (shop_route [] (status_response 422 None)))
      [Lit ''/draft_orders/'', Sub (Some (JNum 9001)), Lit ''/send_invoice.json''] ''POST''
      (Some (JObj [(''draft_order_invoice'', JObj [])]))
      \<lparr>remote = 1, trace = [Attempt \<lparr>url = [Lit ''/draft_orders.json''], meth = ''POST'',
            body = Some (draft_payload decimal (Some (JNum 7)) two_units ''Standing order for MON'')\<rparr>]\<rparr>
   = (Inl (ShopifyError 422 [Lit ''/draft_orders/'', Sub (Some (JNum 9001)), Lit ''/send_invoice.json''] []),
      \<lparr>remote = 2, trace = [Attempt \<lparr>url = [Lit ''/draft_orders.json''], meth = ''POST'',
            body = Some (draft_payload decimal (Some (JNum 7)) two_units ''Standing order for MON'')\<rparr>,
          Attempt \<lparr>url = [Lit ''/draft_orders/'', Sub (Some (JNum 9001)), Lit ''/send_invoice.json''],
            meth = ''POST'', body = Some (JObj [(''draft_order_invoice'', JObj [])])\<rparr>]\<rparr>)"
  by code_simp

theorem record_pushed_after_both_calls_witness:
  "respond (fst (place_order decimal (routed (shop_route [] (status_response 422 None))) ''mon''
       (Some (JNum 7)) two_units [] start))
     = Error500 (ShopifyError 422 [Lit ''/draft_orders/'', Sub (Some (JNum 9001)), Lit ''/send_invoice.json''] [])
   \<and> place_order decimal (routed (shop_route [] (json_response (JObj []) None))) ''mon''
       (Some (JNum 7)) two_units [] start
     = (Inr [\<lparr>customerId = Some (JNum 7), draftId = Some (JNum 9001)\<rparr>],
        \<lparr>remote = 2, trace = [Attempt \<lparr>url = [Lit ''/draft_orders.json''], meth = ''POST'',
            body = Some (draft_payload decimal (Some (JNum 7)) two_units ''Standing order for MON'')\<rparr>,
          Attempt \<lparr>url = [Lit ''/draft_orders/'', Sub (Some (JNum 9001)), Lit ''/send_invoice.json''],
            meth = ''POST'', body = Some (JObj [(''draft_order_invoice'', JObj [])])\<rparr>]\<rparr>)"
proof -
  have i: "get_prop_of (Some (JObj [(''id'', JNum 9001)])) ''id'' = Inr (Some (JNum 9001))" by simp
  from record_pushed_after_both_calls[THEN conjunct2, rule_format, OF conjI[OF draft_then_refused conjI[OF i invoice_refused]]]
  have a: "respond (fst (place_order decimal (routed (shop_route [] (status_response 422 None))) ''mon''
       (Some (JNum 7)) two_units [] start))
     = Error500 (ShopifyError 422 [Lit ''/draft_orders/'', Sub (Some (JNum 9001)), Lit ''/send_invoice.json''] [])"
    by (rule conjunct2)
  have b: "place_order decimal (routed (shop_route [] (json_response (JObj []) None))) ''mon''
       (Some (JNum 7)) two_units [] start
     = (Inr [\<lparr>customerId = Some (JNum 7), draftId = Some (JNum 9001)\<rparr>],
        \<lparr>remote = 2, trace = [Attempt \<lparr>url = [Lit ''/draft_orders.json''], meth = ''POST'',
            body = Some (draft_payload decimal (Some (JNum 7)) two_units ''Standing order for MON'')\<rparr>,
          Attempt \<lparr>url = [Lit ''/draft_orders/'', Sub (Some (JNum 9001)), Lit ''/send_invoice.json''],
            meth = ''POST'', body = Some (JObj [(''draft_order_invoice'', JObj [])])\<rparr>]\<rparr>)"
    by code_simp
  from a b show ?thesis by (rule conjI)
qed

lemma run_loop_after_advance:
  "advance n rt net dayKey g created s = Some (g', created', s') \<Longrightarrow>
   run_loop (n + k) rt net dayKey g created s = run_loop k rt net dayKey g' created' s'"
proof (induction n arbitrary: g created s)
  case 0
  then show ?case by simp
next
  case (Suc n)
  then show ?case by (cases "loop_turn rt net dayKey g created s") simp_all
qed

lemma loop_turn_aborts:
  "loop_turn rt net dayKey g created s = Aborted e s' \<longleftrightarrow>
     (\<exists>g'. gen_step rt net g s = (Threw e, g', s'))
   \<or> (\<exists>cust g' s1. gen_step rt net g s = (Yielded cust, g', s1)
          \<and> process_customer rt net dayKey cust created s1 = (Inl e, s'))"
  by (auto simp: loop_turn_def split: prod.splits signal.splits sum.splits)

lemma run_job_is_run_from:
  "run_job fuel rt net today s = run_from fuel rt net (DAY_KEYS ! getDay today) (AtFetch None) [] s"
  by (simp add: run_job_def run_from_def)

lemma turn_that_throws_ends_the_run:
  assumes "advance n rt net dayKey g0 created0 s0 = Some (g, created, s1)"
    and "loop_turn rt net dayKey g created s1 = Aborted e s2"
  shows "run_from (n + Suc k) rt net dayKey g0 created0 s0 = Some (Error500 e, s2)"
proof -
  have "run_loop (n + Suc k) rt net dayKey g0 created0 s0 = Some (Inl e, s2)"
    by (simp only: run_loop_after_advance[OF assms(1)]) (simp add: assms(2))
  then show ?thesis by (simp only: run_from_def) simp
qed

lemma shopify_throws_on_rejection:
  "fetchWithRetry rt net \<lparr>url = path, meth = m, body = b\<rparr> admin_policy s = (Inl e, s')
   \<Longrightarrow> shopify rt net path m b s = (Inl e, s')"
  by (simp add: shopify_def)

lemma shopify_throws_on_bad_status:
  "fetchWithRetry rt net \<lparr>url = path, meth = m, body = b\<rparr> admin_policy s = (Inr res, s')
   \<Longrightarrow> \<not> ok res
   \<Longrightarrow> shopify rt net path m b s = (Inl (ShopifyError (status res) path (body_text res)), s')"
  by (simp add: shopify_def)

lemma page_call_throws:
  "fetchWithRetry rt net (list_request cur) admin_policy s = (Inl e, s')
   \<Longrightarrow> loop_turn rt net dayKey (AtFetch cur) created s = Aborted e s'"
  by (simp add: loop_turn_def gen_step_def list_request_def)

lemma page_call_bad_status:
  "fetchWithRetry rt net (list_request cur) admin_policy s = (Inr resp, s')
   \<Longrightarrow> \<not> ok resp
   \<Longrightarrow> loop_turn rt net dayKey (AtFetch cur) created s = Aborted (ListCustomersFailed (status resp)) s'"
  by (simp add: loop_turn_def gen_step_def list_request_def)

lemma metafields_call_throws:
  "shopify rt net (metafields_path cust) ''GET'' None s = (Inl e, s')
   \<Longrightarrow> process_customer rt net dayKey cust created s = (Inl e, s')"
  by (simp add: process_customer_def getStanding_def metafields_path_def)

lemma customer_call_throws:
  "gen_step rt net g s = (Yielded cust, g', s1)
   \<Longrightarrow> shopify rt net (metafields_path cust) ''GET'' None s1 = (Inl e, s2)
   \<Longrightarrow> loop_turn rt net dayKey g created s = Aborted e s2"
  by (simp add: loop_turn_def metafields_call_throws)

text \<open>
  C8. Wherever the loop stands after any number of turns, with whatever records it has
  gathered so far: when the generator's page call throws or is answered with a status that
  is not ok, or the metafields call for the customer it yields fails, the run is over at
  once. The answer is the 500 with that one error, the records gathered so far are not in
  it, and the state the run ends in is the state right after the failed call: nothing is
  sent afterwards, so what earlier turns created stays as it is. The two calls that place
  an order are the last statements of the loop body: when the draft order call or the
  invoice call fails, the body throws that error in the same way.
\<close>

theorem run_aborts_on_failed_remote_call:
  assumes "advance n rt net dayKey g0 created0 s0 = Some (g, created, s1)"
  shows "(g = AtFetch cur
            \<and> fetchWithRetry rt net (list_request cur) admin_policy s1 = (Inl e, s2)
          \<longrightarrow> run_from (n + Suc k) rt net dayKey g0 created0 s0 = Some (Error500 e, s2))
       \<and> (g = AtFetch cur
            \<and> fetchWithRetry rt net (list_request cur) admin_policy s1 = (Inr resp, s2) \<and> \<not> ok resp
          \<longrightarrow> run_from (n + Suc k) rt net dayKey g0 created0 s0
                = Some (Error500 (ListCustomersFailed (status resp)), s2))
       \<and> (gen_step rt net g s1 = (Yielded cust, g', s2)
            \<and> shopify rt net (metafields_path cust) ''GET'' None s2 = (Inl e, s3)
          \<longrightarrow> run_from (n + Suc k) rt net dayKey g0 created0 s0 = Some (Error500 e, s3))
       \<and> (shopify rt net [Lit ''/draft_orders.json''] ''POST''
              (Some (draft_payload rt cust items (''Standing order for '' @ toUpperCase dayKey))) s
              = (Inl e, s')
          \<longrightarrow> place_order rt net dayKey cust items created s = (Inl e, s')
              \<and> respond (fst (place_order rt net dayKey cust items created s)) = Error500 e)
       \<and> (createDraftOrder rt net cust items (''Standing order for '' @ toUpperCase dayKey) s
              = (Inr draft, s')
            \<and> get_prop_of draft ''id'' = Inr did
            \<and> shopify rt net [Lit ''/draft_orders/'', Sub did, Lit ''/send_invoice.json''] ''POST''
                 (Some (JObj [(''draft_order_invoice'', JObj [])])) s' = (Inl e, s'')
          \<longrightarrow> place_order rt net dayKey cust items created s = (Inl e, s'')
              \<and> respond (fst (place_order rt net dayKey cust items created s)) = Error500 e)"
proof (intro conjI impI)
  assume a: "g = AtFetch cur \<and> fetchWithRetry rt net (list_request cur) admin_policy s1 = (Inl e, s2)"
  then have "loop_turn rt net dayKey g created s1 = Aborted e s2"
    by (simp add: page_call_throws)
  then show "run_from (n + Suc k) rt net dayKey g0 created0 s0 = Some (Error500 e, s2)"
    by (rule turn_that_throws_ends_the_run[OF assms])
next
  assume a: "g = AtFetch cur
              \<and> fetchWithRetry rt net (list_request cur) admin_policy s1 = (Inr resp, s2) \<and> \<not> ok resp"
  then have "loop_turn rt net dayKey g created s1 = Aborted (ListCustomersFailed (status resp)) s2"
    by (simp add: page_call_bad_status)
  then show "run_from (n + Suc k) rt net dayKey g0 created0 s0
                = Some (Error500 (ListCustomersFailed (status resp)), s2)"
    by (rule turn_that_throws_ends_the_run[OF assms])
next
  assume a: "gen_step rt net g s1 = (Yielded cust, g', s2)
              \<and> shopify rt net (metafields_path cust) ''GET'' None s2 = (Inl e, s3)"
  then have "loop_turn rt net dayKey g created s1 = Aborted e s3"
    using customer_call_throws[of rt net g s1 cust g' s2 e s3 dayKey created] by blast
  then show "run_from (n + Suc k) rt net dayKey g0 created0 s0 = Some (Error500 e, s3)"
    by (rule turn_that_throws_ends_the_run[OF assms])
next
  assume a: "shopify rt net [Lit ''/draft_orders.json''] ''POST''
              (Some (draft_payload rt cust items (''Standing order for '' @ toUpperCase dayKey))) s
              = (Inl e, s')"
  then show p: "place_order rt net dayKey cust items created s = (Inl e, s')"
    by (simp add: place_order_def createDraftOrder_def)
  then show "respond (fst (place_order rt net dayKey cust items created s)) = Error500 e"
    by simp
next
  assume a: "createDraftOrder rt net cust items (''Standing order for '' @ toUpperCase dayKey) s
              = (Inr draft, s')
            \<and> get_prop_of draft ''id'' = Inr did
            \<and> shopify rt net [Lit ''/draft_orders/'', Sub did, Lit ''/send_invoice.json''] ''POST''
                 (Some (JObj [(''draft_order_invoice'', JObj [])])) s' = (Inl e, s'')"
  then show p: "place_order rt net dayKey cust items created s = (Inl e, s'')"
    by (simp add: place_order_def)
  then show "respond (fst (place_order rt net dayKey cust items created s)) = Error500 e"
    by simp
qed

text \<open>
  In the middle of a run, with a record gathered: customer 7 is passed over, the metafields
  call for customer 9 is answered 404, and the answer is the 500 with that error. And a
  run whose first page call is answered 503 on all four attempts.
\<close>

lemma one_turn_before_the_404:
  "advance 1 decimal (routed two_customers) ''mon''
      (InPage [JObj [(''id'', JNum 7)], JObj [(''id'', JNum 9)]] []) recorded mid_run
   = Some (InPage [JObj [(''id'', JNum 9)]] [], recorded,
           \<lparr>remote = 6, trace = earlier_calls @ [Yield (Some (JNum 7)), metafields_of 7]\<rparr>)"
  by code_simp

lemma customer_9_is_yielded:
  "gen_step decimal (routed two_customers) (InPage [JObj [(''id'', JNum 9)]] [])
      \<lparr>remote = 6, trace = earlier_calls @ [Yield (Some (JNum 7)), metafields_of 7]\<rparr>
   = (Yielded (Some (JNum 9)), InPage [] [],
      \<lparr>remote = 6, trace = earlier_calls @ [Yield (Some (JNum 7)), metafields_of 7, Yield (Some (JNum 9))]\<rparr>)"
  by code_simp

lemma metafields_of_9_answers_404:
  "shopify decimal (routed two_customers) (metafields_path (Some (JNum 9))) ''GET'' None
      \<lparr>remote = 6, trace = earlier_calls @ [Yield (Some (JNum 7)), metafields_of 7, Yield (Some (JNum 9))]\<rparr>
   = (Inl (ShopifyError 404 (metafields_path (Some (JNum 9))) []),
      \<lparr>remote = 7, trace = earlier_calls @ [Yield (Some (JNum 7)), metafields_of 7,
                                              Yield (Some (JNum 9)), metafields_of 9]\<rparr>)"
  by code_simp

lemma page_call_answers_503:
  "fetchWithRetry decimal (scripted [] (Responded (status_response 503 None)))
      (list_request None) admin_policy start
   = (Inr (status_response 503 None), \<lparr>remote = 4, trace = page_call_503\<rparr>)"
  by code_simp

theorem run_aborts_on_failed_remote_call_witness:
  "run_from (1 + Suc 0) decimal (routed two_customers) ''mon''
      (InPage [JObj [(''id'', JNum 7)], JObj [(''id'', JNum 9)]] []) recorded mid_run
     = Some (Error500 (ShopifyError 404 (metafields_path (Some (JNum 9))) []),
             \<lparr>remote = 7, trace = earlier_calls @ [Yield (Some (JNum 7)), metafields_of 7,
                                                     Yield (Some (JNum 9)), metafields_of 9]\<rparr>)
   \<and> run_job (0 + Suc 0) decimal (scripted [] (Responded (status_response 503 None))) Monday start
     = Some (Error500 (ListCustomersFailed 503), \<lparr>remote = 4, trace = page_call_503\<rparr>)"
proof -
  note t1 = run_aborts_on_failed_remote_call[OF one_turn_before_the_404, of _ _ _ _ _ "Some (JNum 9)"]
  from t1[THEN conjunct2, THEN conjunct2, THEN conjunct1, rule_format,
          OF conjI[OF customer_9_is_yielded metafields_of_9_answers_404], of 0]
  have a: "run_from (1 + Suc 0) decimal (routed two_customers) ''mon''
      (InPage [JObj [(''id'', JNum 7)], JObj [(''id'', JNum 9)]] []) recorded mid_run
     = Some (Error500 (ShopifyError 404 (metafields_path (Some (JNum 9))) []),
             \<lparr>remote = 7, trace = earlier_calls @ [Yield (Some (JNum 7)), metafields_of 7,
                                                     Yield (Some (JNum 9)), metafields_of 9]\<rparr>)" .
  have s: "advance 0 decimal (scripted [] (Responded (status_response 503 None)))
             (DAY_KEYS ! getDay Monday) (AtFetch None) [] start = Some (AtFetch None, [], start)"
    by simp
  have n: "\<not> ok (status_response 503 None)" by (simp add: ok_def status_response_def)
  have st: "status (status_response 503 None) = 503" by (simp add: status_response_def)
  from run_aborts_on_failed_remote_call[OF s, THEN conjunct2, THEN conjunct1, rule_format,
          OF conjI[OF refl conjI[OF page_call_answers_503 n]], of 0]
  have b: "run_job (0 + Suc 0) decimal (scripted [] (Responded (status_response 503 None))) Monday start
     = Some (Error500 (ListCustomersFailed 503), \<lparr>remote = 4, trace = page_call_503\<rparr>)"
    by (simp only: run_job_is_run_from st)
  from a b show ?thesis by (rule conjI)
qed

text \<open>
  A whole run over the shop of two customers: the second customer's error ends it.
\<close>

lemma run_job_two_customers:
  "run_job 10 decimal (routed two_customers) Monday start
   = Some (Error500 (ReferenceError ''m''),
           \<lparr>remote = 3,
            trace = [Attempt \<lparr>url = [Lit ''/customers.json?limit=250&fields=id''], meth = ''GET'', body = None\<rparr>,
                     Yield (Some (JNum 7)), metafields_of 7, Yield (Some (JNum 8)), metafields_of 8]\<rparr>)"
  by code_simp

section \<open>Properties of iterateCustomers\<close>

lemma fetch_first_ok:
  assumes "\<forall>w. fst (net w rq) = Responded res" and "ok res" and "0 \<le> retries pol"
  shows "fetchWithRetry rt net rq pol s
           = (Inr res, emit (Attempt rq) (s\<lparr>remote := snd (net (remote s) rq)\<rparr>))"
proof -
  obtain got w' where n: "net (remote s) rq = (got, w')" by (cases "net (remote s) rq")
  with assms(1) have g: "got = Responded res" by (metis fst_conv)
  show ?thesis
    unfolding fetchWithRetry_def
    using assms(2,3) by (subst fetch_loop.simps) (simp add: n g)
qed

lemma gen_step_page:
  assumes "\<forall>w. fst (net w (list_request cur)) = Responded (page_response cs l)"
  shows "gen_step rt net (AtFetch cur) s
           = (Silent, InPage cs (link_text l),
              emit (Attempt (list_request cur)) (s\<lparr>remote := snd (net (remote s) (list_request cur))\<rparr>))"
proof -
  have k: "ok (page_response cs l)" by (simp add: ok_def page_response_def json_response_def)
  have r: "0 \<le> retries admin_policy" by (simp add: admin_policy_def)
  have "fetchWithRetry rt net (list_request cur) admin_policy s
           = (Inr (page_response cs l),
              emit (Attempt (list_request cur)) (s\<lparr>remote := snd (net (remote s) (list_request cur))\<rparr>))"
    by (rule fetch_first_ok[where net=net and rq="list_request cur", OF assms k r])
  then show ?thesis
    by (simp add: gen_step_def list_request_def[symmetric] k)
       (simp add: page_response_def json_response_def iterable_def or_js_def link_text_def)
qed

lemma drain_yields:
  "(\<forall>c\<in>set cs. c \<noteq> JNull) \<Longrightarrow>
   drain (length cs + k) rt net (InPage cs l) ids s
     = drain k rt net (InPage [] l) (ids @ page_ids cs) (s\<lparr>trace := trace s @ map Yield (page_ids cs)\<rparr>)"
proof (induction cs arbitrary: ids s)
  case Nil
  then show ?case by (simp add: page_ids_def)
next
  case (Cons c cs)
  then have c: "c \<noteq> JNull" and r: "\<forall>c\<in>set cs. c \<noteq> JNull" by simp_all
  have g: "get_prop c ''id'' = Inr (map_of (members c) ''id'')" by (rule get_prop_members[OF c])
  have "drain (length (c # cs) + k) rt net (InPage (c # cs) l) ids s
          = drain (length cs + k) rt net (InPage cs l) (ids @ [map_of (members c) ''id''])
              (emit (Yield (map_of (members c) ''id'')) s)"
    by (simp add: gen_step_def g)
  also have "\<dots> = drain k rt net (InPage [] l) ((ids @ [map_of (members c) ''id'']) @ page_ids cs)
              ((emit (Yield (map_of (members c) ''id'')) s)
                 \<lparr>trace := trace (emit (Yield (map_of (members c) ''id'')) s) @ map Yield (page_ids cs)\<rparr>)"
    by (rule Cons.IH[OF r])
  finally show ?case by (simp add: page_ids_def emit_def)
qed

lemma drain_pages:
  "serves net cur ps \<Longrightarrow>
   \<exists>s'. drain (turns ps + k) rt net (AtFetch cur) ids s = Some (Inr (ids @ all_ids ps), s')
       \<and> trace s' = trace s @ paging cur ps"
proof (induction ps arbitrary: cur ids s)
  case Nil
  then show ?case by simp
next
  case (Cons p ps)
  obtain cs l where p: "p = (cs, l)" by (cases p)
  from Cons.prems have sv: "\<forall>w. fst (net w (list_request cur)) = Responded (page_response cs l)"
    and nn: "\<forall>c\<in>set cs. c \<noteq> JNull" by (simp_all add: p)
  let ?s1 = "emit (Attempt (list_request cur)) (s\<lparr>remote := snd (net (remote s) (list_request cur))\<rparr>)"
  let ?s2 = "?s1\<lparr>trace := trace ?s1 @ map Yield (page_ids cs)\<rparr>"
  have t: "turns (p # ps) + k = Suc (length cs + Suc (turns ps + k))" by (simp add: turns_def p)
  have a: "drain (turns (p # ps) + k) rt net (AtFetch cur) ids s
             = drain (length cs + Suc (turns ps + k)) rt net (InPage cs (link_text l)) ids ?s1"
    unfolding t by (simp add: gen_step_page[where net=net and cur=cur, OF sv])
  have b: "\<dots> = drain (Suc (turns ps + k)) rt net (InPage [] (link_text l)) (ids @ page_ids cs) ?s2"
    by (rule drain_yields[OF nn])
  have tr2: "trace ?s2 = trace s @ Attempt (list_request cur) # map Yield (page_ids cs)"
    by (simp add: emit_def)
  show ?case
  proof (cases "link_next (link_text l)")
    case None
    with Cons.prems have e: "ps = []" by (simp add: p)
    have "drain (Suc (turns ps + k)) rt net (InPage [] (link_text l)) (ids @ page_ids cs) ?s2
            = Some (Inr (ids @ page_ids cs), ?s2)"
      by (simp add: gen_step_def None)
    with a b have "drain (turns (p # ps) + k) rt net (AtFetch cur) ids s = Some (Inr (ids @ page_ids cs), ?s2)"
      by simp
    moreover have "ids @ all_ids (p # ps) = ids @ page_ids cs" by (simp add: all_ids_def p e)
    moreover have "trace ?s2 = trace s @ paging cur (p # ps)" by (simp add: tr2 p e)
    ultimately show ?thesis by metis
  next
    case (Some tok)
    with Cons.prems have sv': "serves net (Some tok) ps" by (simp add: p)
    have c: "drain (Suc (turns ps + k)) rt net (InPage [] (link_text l)) (ids @ page_ids cs) ?s2
            = drain (turns ps + k) rt net (AtFetch (Some tok)) (ids @ page_ids cs) ?s2"
      by (simp add: gen_step_def Some)
    from Cons.IH[OF sv', of "ids @ page_ids cs" ?s2]
    obtain s' where d: "drain (turns ps + k) rt net (AtFetch (Some tok)) (ids @ page_ids cs) ?s2
                          = Some (Inr ((ids @ page_ids cs) @ all_ids ps), s')"
      and tr: "trace s' = trace ?s2 @ paging (Some tok) ps" by blast
    from a b c d have "drain (turns (p # ps) + k) rt net (AtFetch cur) ids s
                          = Some (Inr ((ids @ page_ids cs) @ all_ids ps), s')" by simp
    moreover have "(ids @ page_ids cs) @ all_ids ps = ids @ all_ids (p # ps)" by (simp add: all_ids_def p)
    moreover have "trace s' = trace s @ paging cur (p # ps)" by (simp add: tr tr2 p Some)
    ultimately show ?thesis by metis
  qed
qed


text \<open>
  C7. Over a service that serves a list of pages, every page but the last naming a next
  page in its \<open>link\<close> header, the iterator, driven with fuel for its turns, comes
  to its end having yielded the ids of all pages in order; and in what it did, the ids of
  a page are all yielded before the request for the page after it is made.
\<close>

theorem iterateCustomers_yields_all_pages:
  assumes "serves net None ps"
  shows "\<exists>s'. drain (turns ps + k) rt net (AtFetch None) [] s = Some (Inr (all_ids ps), s')
            \<and> trace s' = trace s @ paging None ps"
  using drain_pages[OF assms, of k rt "[]" s] by simp

lemma link_next_p2: "link_next (next_link ''p2'') = Some ''p2''"
  by code_simp

lemma link_next_p3: "link_next (next_link ''p3'') = Some ''p3''"
  by code_simp

lemma link_next_empty: "link_next [] = None"
  by simp

lemma serves_three_pages: "serves (routed three_pages_route) None three_pages"
proof -
  have u: "customers_url (Some ''p2'') \<noteq> customers_url None"
          "customers_url (Some ''p3'') \<noteq> customers_url None"
          "customers_url (Some ''p3'') \<noteq> customers_url (Some ''p2'')"
    by (simp_all add: customers_url_def header_val_def)
  show ?thesis
    by (simp add: three_pages_def link_text_def link_next_p2 link_next_p3 routed_def
          list_request_def three_pages_route_def u)
qed

theorem iterateCustomers_yields_all_pages_witness:
  "\<exists>s'. drain (turns three_pages + 0) decimal (routed three_pages_route) (AtFetch None) [] start
          = Some (Inr [Some (JNum 1), Some (JNum 2), Some (JNum 3), Some (JNum 4), Some (JNum 5)], s')
       \<and> trace s' =
           [Attempt (list_request None), Yield (Some (JNum 1)), Yield (Some (JNum 2)),
            Attempt (list_request (Some ''p2'')), Yield (Some (JNum 3)),
            Attempt (list_request (Some ''p3'')), Yield (Some (JNum 4)), Yield (Some (JNum 5))]"
proof -
  have i: "all_ids three_pages = [Some (JNum 1), Some (JNum 2), Some (JNum 3), Some (JNum 4), Some (JNum 5)]"
    by (simp add: all_ids_def three_pages_def page_ids_def)
  have p: "trace start @ paging None three_pages =
           [Attempt (list_request None), Yield (Some (JNum 1)), Yield (Some (JNum 2)),
            Attempt (list_request (Some ''p2'')), Yield (Some (JNum 3)),
            Attempt (list_request (Some ''p3'')), Yield (Some (JNum 4)), Yield (Some (JNum 5))]"
    by (simp add: start_def three_pages_def page_ids_def link_text_def link_next_p2 link_next_p3)
  from iterateCustomers_yields_all_pages[OF serves_three_pages, of 0 decimal start]
  show ?thesis unfolding i p .
qed

text \<open>The run over the three pages, and a service whose pages never end.\<close>

lemma three_pages_run:
  "drain 12 decimal (routed three_pages_route) (AtFetch None) [] start
     = Some (Inr [Some (JNum 1), Some (JNum 2), Some (JNum 3), Some (JNum 4), Some (JNum 5)],
             \<lparr>remote = 3, trace =
           [Attempt (list_request None), Yield (Some (JNum 1)), Yield (Some (JNum 2)),
            Attempt (list_request (Some ''p2'')), Yield (Some (JNum 3)),
            Attempt (list_request (Some ''p3'')), Yield (Some (JNum 4)), Yield (Some (JNum 5))]\<rparr>)"
  by code_simp

lemma endless_pages:
  "drain 50 decimal (routed (\<lambda>u. Responded (page_response [] (Some (next_link ''again''))))) (AtFetch None) [] start
     = None"
  by code_simp

section \<open>Properties of verifyProxy\<close>

lemma unhex_hex_digit: "d < 16 \<Longrightarrow> unhex (hex_digits ! d) = Some d"
proof -
  assume "d < 16"
  then have "d \<in> set [0..<16]" by simp
  then have "d \<in> {0,1,2,3,4,5,6,7,8,9,10,11,12,13,14,15}"
    by (simp add: upt_rec numeral_eq_Suc) 
  then show ?thesis
    by (elim insertE emptyE) (simp_all add: hex_digits_def unhex_def)
qed

lemma from_hex_hex_byte: "from_hex (hex_byte b @ cs) = b # from_hex cs"
proof -
  have u: "unat b < 256" using unsigned_less[of b] by simp
  then have h: "unat b div 16 < 16" and l: "unat b mod 16 < 16" by simp_all
  have "(of_nat (16 * (unat b div 16) + unat b mod 16) :: 8 word) = b" by simp
  then show ?thesis
    by (simp add: hex_byte_def unhex_hex_digit[OF h] unhex_hex_digit[OF l])
qed

lemma from_hex_to_hex: "from_hex (to_hex bs) = bs"
proof (induction bs)
  case Nil
  then show ?case by (simp add: to_hex_def)
next
  case (Cons b bs)
  have "to_hex (b # bs) = hex_byte b @ to_hex bs" by (simp add: to_hex_def)
  then show ?case by (simp add: from_hex_hex_byte Cons.IH)
qed

lemma to_hex_empty: "to_hex bs = [] \<longleftrightarrow> bs = []"
  by (cases bs) (simp_all add: to_hex_def hex_byte_def)

lemma verifyProxy_iff:
  "verifyProxy hmac (Some key) q = Inr True \<longleftrightarrow>
     (\<exists>signature. map_of q ''signature'' = Some signature \<and> signature \<noteq> []
         \<and> from_hex signature = hmac key (sorted_params (without_signature q)))"
  by (auto simp: verifyProxy_def from_hex_to_hex timingSafeEqual_def split: option.splits)

lemma verifyProxy_total:
  "verifyProxy hmac (Some key) q = Inr True \<or> verifyProxy hmac (Some key) q = Inr False"
  by (auto simp: verifyProxy_def timingSafeEqual_def split: option.splits)

lemma without_signature_cons: "without_signature ((''signature'', v) # q) = without_signature q"
  by (simp add: without_signature_def)


lemma from_hex_length: "length (from_hex s) \<le> length s div 2"
  by (induction s rule: from_hex.induct) (auto split: option.splits)

lemma from_hex_stops:
  "i < length s \<Longrightarrow> unhex (s ! i) = None \<Longrightarrow> length (from_hex s) \<le> i div 2"
proof (induction s arbitrary: i rule: from_hex.induct)
  case (1 a b cs)
  show ?case
  proof (cases "unhex a = None \<or> unhex b = None")
    case True
    then show ?thesis by (auto split: option.splits)
  next
    case False
    then obtain x y where xy: "unhex a = Some x" "unhex b = Some y" by auto
    with "1.prems" have i2: "2 \<le> i"
      by (cases i) (auto simp: nth_Cons split: nat.splits)
    then have n: "(a # b # cs) ! i = cs ! (i - 2)"
      by (simp add: nth_Cons numeral_2_eq_2 split: nat.splits)
    from "1.prems" i2 have l: "i - 2 < length cs" by simp
    from "1.IH"[OF xy(1) xy(2) l] "1.prems"(2) n
    have "length (from_hex cs) \<le> (i - 2) div 2" by simp
    with i2 xy show ?thesis by simp
  qed
qed simp_all

text \<open>
  The digest of the example request under the secret \<open>shhh\<close>, block by block.
\<close>

lemma inner_blocks:
  "blocks (be32 (pad (map (\<lambda>b. b XOR 0x36) (key_block (utf8 ''shhh''))
                        @ utf8 ''customer_id=7shop=example.myshopify.com'')))
     = [inner_block1, inner_block2]"
  by code_simp

lemma inner_compress1: "compress H256 inner_block1 = inner_state1"
  by code_simp

lemma inner_compress2: "compress inner_state1 inner_block2 = inner_state2"
  by code_simp

lemma inner_bytes: "concat (map bytes32 inner_state2) = inner_digest"
  by code_simp

lemma inner_hash:
  "sha256 (map (\<lambda>b. b XOR 0x36) (key_block (utf8 ''shhh''))
             @ utf8 ''customer_id=7shop=example.myshopify.com'') = inner_digest"
  by (simp only: sha256_def inner_blocks foldl_Cons foldl_Nil inner_compress1 inner_compress2 inner_bytes)

lemma outer_blocks:
  "blocks (be32 (pad (map (\<lambda>b. b XOR 0x5c) (key_block (utf8 ''shhh'')) @ inner_digest)))
     = [outer_block1, outer_block2]"
  by code_simp

lemma outer_compress1: "compress H256 outer_block1 = outer_state1"
  by code_simp

lemma outer_compress2: "compress outer_state1 outer_block2 = outer_state2"
  by code_simp

lemma outer_bytes: "concat (map bytes32 outer_state2) = proxy_digest"
  by code_simp

lemma hmac_proxy: "node_hmac ''shhh'' ''customer_id=7shop=example.myshopify.com'' = proxy_digest"
  by (simp only: node_hmac_def hmac_sha256_def inner_hash)
     (simp only: sha256_def outer_blocks foldl_Cons foldl_Nil outer_compress1 outer_compress2 outer_bytes)

lemma sorted_proxy_params:
  "sorted_params (without_signature ((''signature'', v) # proxy_params))
     = ''customer_id=7shop=example.myshopify.com''"
  by code_simp

lemma to_hex_proxy_digest: "to_hex proxy_digest = proxy_signature"
  by code_simp

text \<open>
  C3, as the code has it. For every query and secret, \<open>verifyProxy\<close> returns true for
  the signature made by sorting the keys of the other parameters, joining \<open>key=value\<close>
  with nothing between, taking the keyed digest under the secret and writing it in hex;
  and it returns true for a given signature exactly when that signature is not empty and
  its hex decoding is the digest. The decoding reads a digit in either case and stops at
  the first pair of characters that is not two hex digits, so an altered character makes
  the signature fail only if it changes the decoded bytes, and an altered parameter or
  secret only if it changes the digest.
\<close>

theorem verifyProxy_accepts_what_decodes_to_the_digest:
  "(hmac key (sorted_params (without_signature P)) \<noteq> [] \<longrightarrow>
      verifyProxy hmac (Some key)
        ((''signature'', to_hex (hmac key (sorted_params (without_signature P)))) # P) = Inr True)
   \<and> (verifyProxy hmac (Some key) q = Inr True \<longleftrightarrow>
        (\<exists>signature. map_of q ''signature'' = Some signature \<and> signature \<noteq> []
            \<and> from_hex signature = hmac key (sorted_params (without_signature q))))"
proof (intro conjI impI)
  assume "hmac key (sorted_params (without_signature P)) \<noteq> []"
  then show "verifyProxy hmac (Some key)
        ((''signature'', to_hex (hmac key (sorted_params (without_signature P)))) # P) = Inr True"
    by (simp add: verifyProxy_iff without_signature_cons from_hex_to_hex to_hex_empty)
next
  show "verifyProxy hmac (Some key) q = Inr True \<longleftrightarrow>
        (\<exists>signature. map_of q ''signature'' = Some signature \<and> signature \<noteq> []
            \<and> from_hex signature = hmac key (sorted_params (without_signature q)))"
    by (rule verifyProxy_iff)
qed

theorem verifyProxy_accepts_what_decodes_to_the_digest_witness:
  "verifyProxy node_hmac (Some ''shhh'') ((''signature'', proxy_signature) # proxy_params) = Inr True"
proof -
  have d: "node_hmac ''shhh'' (sorted_params (without_signature proxy_params)) = proxy_digest"
    using hmac_proxy sorted_proxy_params[of "[]"] by (simp add: without_signature_cons)
  have n: "node_hmac ''shhh'' (sorted_params (without_signature proxy_params)) \<noteq> []"
    by (simp add: d proxy_digest_def)
  from verifyProxy_accepts_what_decodes_to_the_digest[where hmac=node_hmac and key="''shhh''" and P=proxy_params,
      THEN conjunct1, rule_format, OF n]
  show ?thesis by (simp only: d to_hex_proxy_digest)
qed

text \<open>
  The third character of the example's signature is the digit \<open>e\<close>; written as
  \<open>E\<close>, one character altered, the signature still verifies.
\<close>

theorem altered_signature_counterexample:
  "to_hex (node_hmac ''shhh'' (sorted_params proxy_params)) = proxy_signature
   \<and> proxy_signature ! 2 = CHR ''e''
   \<and> verifyProxy node_hmac (Some ''shhh'')
        ((''signature'', proxy_signature[2 := CHR ''E'']) # proxy_params) = Inr True"
proof -
  have s: "sorted_params proxy_params = ''customer_id=7shop=example.myshopify.com''"
    by code_simp
  have a: "to_hex (node_hmac ''shhh'' (sorted_params proxy_params)) = proxy_signature"
    by (simp only: s hmac_proxy to_hex_proxy_digest)
  have b: "proxy_signature ! 2 = CHR ''e''" by code_simp
  have f: "from_hex (proxy_signature[2 := CHR ''E'']) = proxy_digest" by code_simp
  have m: "map_of ((''signature'', proxy_signature[2 := CHR ''E'']) # proxy_params) ''signature''
             = Some (proxy_signature[2 := CHR ''E''])" by simp
  have ne: "proxy_signature[2 := CHR ''E''] \<noteq> []" by (simp add: proxy_signature_def)
  have c: "verifyProxy node_hmac (Some ''shhh'')
        ((''signature'', proxy_signature[2 := CHR ''E'']) # proxy_params) = Inr True"
    unfolding verifyProxy_iff sorted_proxy_params hmac_proxy using m ne f by blast
  from a b c show ?thesis by blast
qed

text \<open>
  C4, as the code has it. \<open>verifyProxy\<close> returns false without throwing when the
  signature is absent or empty, whatever the secret; with a secret set it never throws, and
  it returns false whenever the decoded signature has another length than the digest, as
  it has when the signature is shorter than 64 characters or one of its first 64 characters
  is no hex digit. With the secret unset and a signature present, \<open>createHmac\<close>
  throws a TypeError out of \<open>verifyProxy\<close>, and the handler answers 500 with it,
  not 401.
\<close>

theorem verifyProxy_rejections:
  "(map_of q ''signature'' = None \<or> map_of q ''signature'' = Some [] \<longrightarrow>
       verifyProxy hmac secret q = Inr False)
   \<and> (verifyProxy hmac (Some key) q = Inr True \<or> verifyProxy hmac (Some key) q = Inr False)
   \<and> (map_of q ''signature'' = Some signature
        \<and> length (from_hex signature) \<noteq> length (hmac key (sorted_params (without_signature q)))
      \<longrightarrow> verifyProxy hmac (Some key) q = Inr False)
   \<and> (map_of q ''signature'' = Some signature
        \<and> length (hmac key (sorted_params (without_signature q))) = 32
        \<and> (length signature < 64 \<or> (\<exists>i<64. i < length signature \<and> unhex (signature ! i) = None))
      \<longrightarrow> verifyProxy hmac (Some key) q = Inr False)
   \<and> (map_of q ''signature'' = Some signature \<and> signature \<noteq> [] \<longrightarrow>
         verifyProxy hmac None q = Inl (TypeError ''key'')
       \<and> get_standing_orders hmac None rt net q s = (Status500 (TypeError ''key''), s))"
proof (intro conjI impI)
  assume "map_of q ''signature'' = None \<or> map_of q ''signature'' = Some []"
  then show "verifyProxy hmac secret q = Inr False" by (auto simp: verifyProxy_def)
next
  show "verifyProxy hmac (Some key) q = Inr True \<or> verifyProxy hmac (Some key) q = Inr False"
    by (rule verifyProxy_total)
next
  assume "map_of q ''signature'' = Some signature
        \<and> length (from_hex signature) \<noteq> length (hmac key (sorted_params (without_signature q)))"
  then show "verifyProxy hmac (Some key) q = Inr False"
    by (simp add: verifyProxy_def timingSafeEqual_def from_hex_to_hex)
next
  assume a: "map_of q ''signature'' = Some signature
        \<and> length (hmac key (sorted_params (without_signature q))) = 32
        \<and> (length signature < 64 \<or> (\<exists>i<64. i < length signature \<and> unhex (signature ! i) = None))"
  have "length (from_hex signature) < 32"
  proof (cases "length signature < 64")
    case True
    with from_hex_length[of signature] show ?thesis by simp
  next
    case False
    with a obtain i where i: "i < 64" "i < length signature" "unhex (signature ! i) = None" by blast
    from from_hex_stops[OF i(2) i(3)] i(1) show ?thesis by simp
  qed
  with a show "verifyProxy hmac (Some key) q = Inr False"
    by (simp add: verifyProxy_def timingSafeEqual_def from_hex_to_hex)
next
  assume a: "map_of q ''signature'' = Some signature \<and> signature \<noteq> []"
  then show v: "verifyProxy hmac None q = Inl (TypeError ''key'')" by (simp add: verifyProxy_def)
  then show "get_standing_orders hmac None rt net q s = (Status500 (TypeError ''key''), s)"
    by (simp add: get_standing_orders_def)
qed

theorem verifyProxy_rejections_witness:
  "verifyProxy node_hmac (Some ''shhh'') ((''signature'', ''41eebe28'') # proxy_params) = Inr False
   \<and> verifyProxy node_hmac (Some ''shhh'') proxy_params = Inr False"
proof -
  let ?q = "(''signature'', ''41eebe28'') # proxy_params"
  have m: "map_of ?q ''signature'' = Some ''41eebe28''" by simp
  have l: "length (node_hmac ''shhh'' (sorted_params (without_signature ?q))) = 32"
    by (simp only: sorted_proxy_params hmac_proxy) (simp add: proxy_digest_def)
  have s: "length ''41eebe28'' < (64::nat)" by simp
  from verifyProxy_rejections[where q="?q" and signature="''41eebe28''" and hmac=node_hmac and key="''shhh''"] m l s
  have a: "verifyProxy node_hmac (Some ''shhh'') ?q = Inr False" by blast
  have n: "map_of proxy_params ''signature'' = None" by (simp add: proxy_params_def)
  from verifyProxy_rejections[where q=proxy_params and hmac=node_hmac and secret="Some ''shhh''"] n
  have b: "verifyProxy node_hmac (Some ''shhh'') proxy_params = Inr False" by blast
  from a b show ?thesis by (rule conjI)
qed

text \<open>
  With no secret in the environment the signed example request makes \<open>verifyProxy\<close>
  throw, and the GET handler answer 500. And with the secret set, the example's signature
  followed by \<open>zz\<close>, which is no hex and 66 characters long, verifies.
\<close>

theorem unset_secret_counterexample:
  "verifyProxy node_hmac None ((''signature'', proxy_signature) # proxy_params) = Inl (TypeError ''key'')
   \<and> fst (get_standing_orders node_hmac None decimal (routed two_customers)
            ((''signature'', proxy_signature) # proxy_params) start) = Status500 (TypeError ''key'')
   \<and> verifyProxy node_hmac (Some ''shhh'')
        ((''signature'', proxy_signature @ ''zz'') # proxy_params) = Inr True"
proof -
  have a: "verifyProxy node_hmac None ((''signature'', proxy_signature) # proxy_params) = Inl (TypeError ''key'')"
    by (simp add: verifyProxy_def proxy_signature_def)
  then have b: "fst (get_standing_orders node_hmac None decimal (routed two_customers)
            ((''signature'', proxy_signature) # proxy_params) start) = Status500 (TypeError ''key'')"
    by (simp add: get_standing_orders_def)
  have f: "from_hex (proxy_signature @ ''zz'') = proxy_digest" by code_simp
  have m: "map_of ((''signature'', proxy_signature @ ''zz'') # proxy_params) ''signature''
             = Some (proxy_signature @ ''zz'')" by simp
  have ne: "proxy_signature @ ''zz'' \<noteq> []" by simp
  have c: "verifyProxy node_hmac (Some ''shhh'')
        ((''signature'', proxy_signature @ ''zz'') # proxy_params) = Inr True"
    unfolding verifyProxy_iff sorted_proxy_params hmac_proxy using m ne f by blast
  from a b c show ?thesis by blast
qed

section \<open>What a run sends\<close>

lemma extends_refl: "extends P s s"
  by (simp add: extends_def requests_def)

lemma extends_trans: "extends P s s1 \<Longrightarrow> extends P s1 s2 \<Longrightarrow> extends P s s2"
  by (auto simp: extends_def requests_def)

lemma extends_remote: "extends P (s\<lparr>remote := w\<rparr>) s' = extends P s s'"
  by (simp add: extends_def)

lemma extends_emit_Sleep: "extends P s (emit (Sleep n) s)"
  by (simp add: extends_def emit_def requests_def)

lemma extends_emit_Yield: "extends P s (emit (Yield v) s)"
  by (simp add: extends_def emit_def requests_def)

lemma extends_emit_Attempt: "P rq \<Longrightarrow> extends P s (emit (Attempt rq) s)"
  by (simp add: extends_def emit_def requests_def)

lemma extends_attempt_remote: "P rq \<Longrightarrow> extends P s (emit (Attempt rq) (s\<lparr>remote := w\<rparr>))"
  by (simp add: extends_def emit_def requests_def)

lemma fetch_loop_extends:
  "P rq \<Longrightarrow> extends P s (snd (fetch_loop rt net rq pol k s))"
proof (induction rt net rq pol k s rule: fetch_loop.induct)
  case (1 rt net rq pol attempt s)
  obtain got w' where n: "net (remote s) rq = (got, w')" by (cases "net (remote s) rq")
  let ?s1 = "emit (Attempt rq) (s\<lparr>remote := w'\<rparr>)"
  have a: "extends P s ?s1" using "1.prems" by (simp add: extends_attempt_remote)
  show ?case
  proof (cases "int attempt \<le> retries pol")
    case False
    then show ?thesis by (subst fetch_loop.simps) (simp add: extends_refl)
  next
    case le: True
    show ?thesis
    proof (cases got)
      case (Responded res)
      show ?thesis
      proof (cases "\<not> ok res \<and> retryable res \<and> int attempt < retries pol")
        case True
        let ?s2 = "emit (Sleep (retry_wait rt pol attempt res)) ?s1"
        have "extends P ?s2 (snd (fetch_loop rt net rq pol (Suc attempt) ?s2))"
          using "1.IH"(1)[OF le refl n[symmetric] refl Responded True "1.prems"] .
        with a extends_emit_Sleep[of P ?s1] have "extends P s (snd (fetch_loop rt net rq pol (Suc attempt) ?s2))"
          by (blast intro: extends_trans)
        then show ?thesis using le True by (subst fetch_loop.simps) (simp add: n Responded)
      next
        case False
        then show ?thesis using le a by (subst fetch_loop.simps) (auto simp: n Responded)
      qed
    next
      case (Rejected err)
      show ?thesis
      proof (cases "int attempt \<ge> retries pol")
        case True
        then show ?thesis using le a by (subst fetch_loop.simps) (simp add: n Rejected)
      next
        case False
        let ?s2 = "emit (Sleep (backoffMs pol * 2 ^ attempt)) ?s1"
        have "extends P ?s2 (snd (fetch_loop rt net rq pol (Suc attempt) ?s2))"
          using "1.IH"(2)[OF le refl n[symmetric] refl Rejected False "1.prems"] .
        with a extends_emit_Sleep[of P ?s1] have "extends P s (snd (fetch_loop rt net rq pol (Suc attempt) ?s2))"
          by (blast intro: extends_trans)
        then show ?thesis using le False by (subst fetch_loop.simps) (simp add: n Rejected)
      qed
    qed
  qed
qed


lemma fetchWithRetry_extends:
  "P rq \<Longrightarrow> fetchWithRetry rt net rq pol s = (r, s') \<Longrightarrow> extends P s s'"
  using fetch_loop_extends[of P rq s rt net pol 0] by (simp add: fetchWithRetry_def)

lemma shopify_extends:
  assumes "P \<lparr>url = path, meth = m, body = b\<rparr>" and "shopify rt net path m b s = (r, s')"
  shows "extends P s s'"
proof -
  obtain r0 s0 where f: "fetchWithRetry rt net \<lparr>url = path, meth = m, body = b\<rparr> admin_policy s = (r0, s0)"
    by (cases "fetchWithRetry rt net \<lparr>url = path, meth = m, body = b\<rparr> admin_policy s")
  from assms(2) have "s' = s0"
    by (auto simp: shopify_def f split: sum.splits if_splits option.splits)
  with fetchWithRetry_extends[where P=P, OF assms(1) f] show ?thesis by simp
qed

lemma getStanding_extends:
  assumes "getStanding rt net cust s = (r, s')"
  shows "extends get_or_post s s'"
proof -
  let ?path = "[Lit ''/customers/'', Sub cust, Lit ''/metafields.json'']"
  obtain r0 s0 where f: "shopify rt net ?path ''GET'' None s = (r0, s0)"
    by (cases "shopify rt net ?path ''GET'' None s")
  from assms have "s' = s0"
    by (auto simp: getStanding_def f split: sum.splits if_splits)
  moreover have "get_or_post \<lparr>url = ?path, meth = ''GET'', body = None\<rparr>"
    by (simp add: get_or_post_def)
  ultimately show ?thesis using shopify_extends[OF _ f] by simp
qed

lemma createDraftOrder_extends:
  assumes "createDraftOrder rt net cust items note s = (r, s')"
  shows "extends get_or_post s s'"
proof -
  let ?b = "Some (draft_payload rt cust items note)"
  obtain r0 s0 where f: "shopify rt net [Lit ''/draft_orders.json''] ''POST'' ?b s = (r0, s0)"
    by (cases "shopify rt net [Lit ''/draft_orders.json''] ''POST'' ?b s")
  from assms have "s' = s0"
    by (auto simp: createDraftOrder_def f split: sum.splits)
  moreover have "get_or_post \<lparr>url = [Lit ''/draft_orders.json''], meth = ''POST'', body = ?b\<rparr>"
    by (simp add: get_or_post_def)
  ultimately show ?thesis using shopify_extends[OF _ f] by simp
qed

lemma place_order_extends:
  assumes "place_order rt net dayKey cust items created s = (r, s')"
  shows "extends get_or_post s s'"
proof -
  let ?note = "''Standing order for '' @ toUpperCase dayKey"
  obtain r1 s1 where c: "createDraftOrder rt net cust items ?note s = (r1, s1)"
    by (cases "createDraftOrder rt net cust items ?note s")
  have e1: "extends get_or_post s s1" by (rule createDraftOrder_extends[OF c])
  show ?thesis
  proof (cases r1)
    case (Inl e)
    with assms c have "s' = s1" by (simp add: place_order_def)
    with e1 show ?thesis by simp
  next
    case (Inr draft)
    show ?thesis
    proof (cases "get_prop_of draft ''id''")
      case (Inl e)
      with assms c Inr have "s' = s1" by (simp add: place_order_def)
      with e1 show ?thesis by simp
    next
      case did: (Inr did)
      let ?path = "[Lit ''/draft_orders/'', Sub did, Lit ''/send_invoice.json'']"
      let ?b = "Some (JObj [(''draft_order_invoice'', JObj [])])"
      obtain r2 s2 where f: "shopify rt net ?path ''POST'' ?b s1 = (r2, s2)"
        by (cases "shopify rt net ?path ''POST'' ?b s1")
      from assms c Inr did have "s' = s2"
        by (auto simp: place_order_def f split: sum.splits)
      moreover have "get_or_post \<lparr>url = ?path, meth = ''POST'', body = ?b\<rparr>"
        by (simp add: get_or_post_def)
      ultimately have "extends get_or_post s1 s'" using shopify_extends[OF _ f] by simp
      with e1 show ?thesis by (rule extends_trans)
    qed
  qed
qed

lemma process_customer_extends:
  assumes "process_customer rt net dayKey cust created s = (r, s')"
  shows "extends get_or_post s s'"
proof -
  obtain r1 s1 where g: "getStanding rt net cust s = (r1, s1)"
    by (cases "getStanding rt net cust s")
  have e1: "extends get_or_post s s1" by (rule getStanding_extends[OF g])
  from assms g have "s' = s1 \<or> (\<exists>items. place_order rt net dayKey cust items created s1 = (r, s'))"
    by (auto simp: process_customer_def split: sum.splits option.splits)
  then show ?thesis
  proof
    assume "s' = s1"
    with e1 show ?thesis by simp
  next
    assume "\<exists>items. place_order rt net dayKey cust items created s1 = (r, s')"
    then obtain items where "place_order rt net dayKey cust items created s1 = (r, s')" ..
    from e1 place_order_extends[OF this] show ?thesis by (rule extends_trans)
  qed
qed

lemma gen_step_extends:
  assumes "gen_step rt net g s = (sig, g', s')"
  shows "extends get_or_post s s'"
proof (cases g)
  case (AtFetch page_info)
  let ?rq = "\<lparr>url = customers_url page_info, meth = ''GET'', body = None\<rparr>"
  obtain r0 s0 where f: "fetchWithRetry rt net ?rq admin_policy s = (r0, s0)"
    by (cases "fetchWithRetry rt net ?rq admin_policy s")
  from assms have "s' = s0"
    by (auto simp: gen_step_def AtFetch f split: sum.splits if_splits option.splits)
  moreover have "get_or_post ?rq" by (simp add: get_or_post_def)
  ultimately show ?thesis using fetchWithRetry_extends[OF _ f] by simp
next
  case (InPage cs l)
  with assms show ?thesis
    by (cases cs) (auto simp: gen_step_def extends_refl extends_emit_Yield split: option.splits sum.splits)
next
  case Closed
  with assms show ?thesis by (simp add: gen_step_def extends_refl)
qed

lemma loop_turn_extends:
  "(loop_turn rt net dayKey g created s = Next g' created' s' \<longrightarrow> extends get_or_post s s')
   \<and> (loop_turn rt net dayKey g created s = Finished created' s' \<longrightarrow> extends get_or_post s s')
   \<and> (loop_turn rt net dayKey g created s = Aborted e s' \<longrightarrow> extends get_or_post s s')"
proof -
  obtain sig g1 s1 where st: "gen_step rt net g s = (sig, g1, s1)"
    by (cases "gen_step rt net g s")
  have e1: "extends get_or_post s s1" by (rule gen_step_extends[OF st])
  show ?thesis
  proof (cases sig)
    case (Yielded cust)
    obtain r2 s2 where p: "process_customer rt net dayKey cust created s1 = (r2, s2)"
      by (cases "process_customer rt net dayKey cust created s1")
    from e1 process_customer_extends[OF p] have "extends get_or_post s s2" by (rule extends_trans)
    then show ?thesis by (cases r2) (auto simp: loop_turn_def st Yielded p)
  qed (use e1 in \<open>auto simp: loop_turn_def st\<close>)
qed

lemma run_loop_extends:
  "run_loop fuel rt net dayKey g created s = Some (r, s') \<Longrightarrow> extends get_or_post s s'"
proof (induction fuel arbitrary: g created s)
  case 0
  then show ?case by simp
next
  case (Suc fuel)
  show ?case
  proof (cases "loop_turn rt net dayKey g created s")
    case (Next g1 c1 s1)
    with Suc.prems have "run_loop fuel rt net dayKey g1 c1 s1 = Some (r, s')" by simp
    from Suc.IH[OF this] loop_turn_extends[of rt net dayKey g created s g1 c1 s1] Next
    show ?thesis by (blast intro: extends_trans)
  next
    case (Finished c1 s1)
    with Suc.prems loop_turn_extends[of rt net dayKey g created s _ c1 s1] show ?thesis by auto
  next
    case (Aborted e s1)
    with Suc.prems loop_turn_extends[of rt net dayKey g created s _ _ s1 e] show ?thesis by auto
  qed
qed

text \<open>
  Whatever the service answers, a run sends nothing but \<open>GET\<close> and \<open>POST\<close>
  requests, and what it has done stays done: there is no request that would take a draft
  order back.
\<close>

lemma run_job_sends_only_gets_and_posts:
  "run_job fuel rt net today s = Some (answer, s') \<Longrightarrow>
   \<exists>tail. trace s' = trace s @ tail \<and> (\<forall>r\<in>set (requests tail). meth r = ''GET'' \<or> meth r = ''POST'')"
proof -
  assume "run_job fuel rt net today s = Some (answer, s')"
  then obtain r where "run_loop fuel rt net (DAY_KEYS ! getDay today) (AtFetch None) [] s = Some (r, s')"
    by (auto simp: run_job_def)
  from run_loop_extends[OF this] show ?thesis
    by (auto simp: extends_def get_or_post_def list_all_iff)
qed
end
